theory Spec2Isabelle
  imports Main "HOL-Library.Monad_Syntax" "HOL-Library.Multiset" "HOL-Library.AList"
begin

chapter \<open>The model\<close>

section \<open>Python values used by the fleet controller\<close>

text \<open>
  Python strings are modelled as \<^typ>\<open>string\<close>: lists of characters whose code
  points are below 256. Every constant string the modelled functions compare against
  is ASCII; display-only text (Rich markup, emoji) is not modelled as text but as
  constructors of the display datatypes further down.
\<close>

datatype py_error = ValueError

text \<open>
  \<^verbatim>\<open>str.isspace\<close>, \<^verbatim>\<open>str.strip()\<close> and the regular-expression class
  \<^verbatim>\<open>\s\<close> agree on which code points below 256 are white space:
  tab to carriage return, the four separators 0x1C..0x1F, space, NEL and NBSP.
\<close>

definition py_whitespace :: "char list" where
  "py_whitespace =
     [CHR 0x09, CHR 0x0A, CHR 0x0B, CHR 0x0C, CHR 0x0D,
      CHR 0x1C, CHR 0x1D, CHR 0x1E, CHR 0x1F, CHR 0x20, CHR 0x85, CHR 0xA0]"

definition py_isspace :: "char \<Rightarrow> bool" where
  "py_isspace c = (c \<in> set py_whitespace)"

text \<open>The class \<^verbatim>\<open>\d\<close>: below code point 256 the decimal digits are 0 to 9.\<close>

definition py_isdigit :: "char \<Rightarrow> bool" where
  "py_isdigit c = (c \<in> set ''0123456789'')"

definition py_strip :: "string \<Rightarrow> string" where
  "py_strip s = rev (dropWhile py_isspace (rev (dropWhile py_isspace s)))"

text \<open>\<^verbatim>\<open>sub in s\<close> on strings: \<open>sub\<close> occurs as a contiguous substring.\<close>

fun py_in :: "string \<Rightarrow> string \<Rightarrow> bool" where
  "py_in sub [] = (sub = [])"
| "py_in sub (c # s) = (take (length sub) (c # s) = sub \<or> py_in sub s)"

text \<open>The value of a string of decimal digits, most significant digit first.\<close>

definition digit_val :: "char \<Rightarrow> nat" where
  "digit_val c = of_char c - 48"

definition digits_val :: "string \<Rightarrow> nat" where
  "digits_val ds = foldl (\<lambda>acc c. 10 * acc + digit_val c) 0 ds"

text \<open>
  \<^verbatim>\<open>int(s)\<close> on a string: surrounding white space is stripped, one sign is
  allowed, and the rest must be decimal digits, where single underscores may separate
  digits. Anything else raises ValueError. So does a literal with more digits than the
  interpreter's limit for the conversion of strings to integers, 4300 by default
  (leading zeros count, underscores do not).
\<close>

definition int_max_str_digits :: nat where
  "int_max_str_digits = 4300"

fun int_body_ok :: "string \<Rightarrow> bool" where
  "int_body_ok [] = False"
| "int_body_ok [c] = py_isdigit c"
| "int_body_ok (c # d # s) =
     (py_isdigit c \<and> (if d = CHR ''_'' then int_body_ok s else int_body_ok (d # s)))"

definition py_int :: "string \<Rightarrow> py_error + int" where
  "py_int s =
     (let t = py_strip s;
          neg = (t \<noteq> [] \<and> hd t = CHR ''-'');
          body = (if t \<noteq> [] \<and> (hd t = CHR ''-'' \<or> hd t = CHR ''+'') then tl t else t);
          digits = filter (\<lambda>c. c \<noteq> CHR ''_'') body
      in if int_body_ok body \<and> length digits \<le> int_max_str_digits
         then Inr ((if neg then - 1 else 1) * int (digits_val digits))
         else Inl ValueError)"

text \<open>\<^verbatim>\<open>str(n)\<close> for an integer, as used by f-strings.\<close>

fun str_nat :: "nat \<Rightarrow> string" where
  "str_nat n =
     (if n < 10 then [char_of (48 + n)]
      else str_nat (n div 10) @ [char_of (48 + n mod 10)])"

definition str_int :: "int \<Rightarrow> string" where
  "str_int i = (if i < 0 then CHR ''-'' # str_nat (nat (- i)) else str_nat (nat i))"

declare str_nat.simps [simp del]

section \<open>Duration parsing (\<^verbatim>\<open>ClusterManager._parse_duration_to_seconds\<close>)\<close>

text \<open>
  The source searches with the raw-string patterns \<^verbatim>\<open>r"(\\d+)h"\<close>,
  \<^verbatim>\<open>r"(\\d+)m"\<close> and \<^verbatim>\<open>r"(\\d+)s"\<close>. In a raw string the two
  backslashes stay two characters, so the regular expression is: a literal backslash,
  one or more letters \<open>d\<close>, then the unit letter. The group is the backslash with the
  run of \<open>d\<close>. The run is followed by the unit letter, which is not \<open>d\<close>, so the
  greedy run is the only way to match at a position.
\<close>

definition re_match_unit :: "char \<Rightarrow> string \<Rightarrow> string option" where
  "re_match_unit u s =
     (case s of
        [] \<Rightarrow> None
      | b # r \<Rightarrow>
          (let ds = takeWhile (\<lambda>c. c = CHR ''d'') r;
               after = dropWhile (\<lambda>c. c = CHR ''d'') r
           in if b = CHR 0x5C \<and> ds \<noteq> [] \<and> after \<noteq> [] \<and> hd after = u
              then Some (b # ds) else None))"

text \<open>\<^verbatim>\<open>re.search\<close>: the leftmost position where the pattern matches; group 1.\<close>

fun re_search_unit :: "char \<Rightarrow> string \<Rightarrow> string option" where
  "re_search_unit u [] = None"
| "re_search_unit u (c # s) =
     (case re_match_unit u (c # s) of
        Some g \<Rightarrow> Some g
      | None \<Rightarrow> re_search_unit u s)"

definition parse_duration_to_seconds :: "string \<Rightarrow> py_error + int" where
  "parse_duration_to_seconds duration =
     (let total_seconds = 0;
          hours = re_search_unit (CHR ''h'') duration;
          minutes = re_search_unit (CHR ''m'') duration;
          seconds = re_search_unit (CHR ''s'') duration
      in case (case hours of None \<Rightarrow> Inr total_seconds
               | Some g \<Rightarrow> (case py_int g of Inl e \<Rightarrow> Inl e
                           | Inr v \<Rightarrow> Inr (total_seconds + v * 3600))) of
           Inl e \<Rightarrow> Inl e
         | Inr t1 \<Rightarrow>
        (case (case minutes of None \<Rightarrow> Inr t1
               | Some g \<Rightarrow> (case py_int g of Inl e \<Rightarrow> Inl e
                           | Inr v \<Rightarrow> Inr (t1 + v * 60))) of
           Inl e \<Rightarrow> Inl e
         | Inr t2 \<Rightarrow>
        (case seconds of None \<Rightarrow> Inr t2
         | Some g \<Rightarrow> (case py_int g of Inl e \<Rightarrow> Inl e
                     | Inr v \<Rightarrow> Inr (t2 + v)))))"

section \<open>Deployment log interpreter (\<^verbatim>\<open>ClusterManager._parse_deployment_log_line\<close>)\<close>

text \<open>
  Readings of \<^verbatim>\<open>time.time()\<close> are kept as a number of milliseconds.
\<close>

type_synonym clock = nat

record log_event =
  ev_node :: string
  ev_rank :: int
  ev_ip :: string
  ev_message :: string
  ev_timestamp :: clock

text \<open>
  The pattern is
  \<^verbatim>\<open>\(([^,]+),\s*rank=(\d+),\s*pid=\d+,\s*ip=([^)]+)\)\s*(.*)\<close>,
  matched at the start of the line by \<^verbatim>\<open>re.match\<close>. Every repetition is
  followed by a literal character outside the repeated class (a comma after
  \<^verbatim>\<open>[^,]+\<close> and after \<^verbatim>\<open>\d+\<close>, a letter after
  \<^verbatim>\<open>\s*\<close>, a closing parenthesis after \<^verbatim>\<open>[^)]+\<close>), so a match, when
  there is one, takes the longest run each time. The last two parts always match:
  \<^verbatim>\<open>\s*\<close> takes all white space (line breaks included) and \<^verbatim>\<open>(.*)\<close>
  the rest up to the first line feed.
\<close>

definition re_lit :: "string \<Rightarrow> string \<Rightarrow> string option" where
  "re_lit p s = (if take (length p) s = p then Some (drop (length p) s) else None)"

definition re_plus :: "(char \<Rightarrow> bool) \<Rightarrow> string \<Rightarrow> (string \<times> string) option" where
  "re_plus P s =
     (if takeWhile P s = [] then None else Some (takeWhile P s, dropWhile P s))"

definition re_star_space :: "string \<Rightarrow> string" where
  "re_star_space s = dropWhile py_isspace s"

definition re_match_log_line :: "string \<Rightarrow> (string \<times> string \<times> string \<times> string) option" where
  "re_match_log_line line = do {
     s1 \<leftarrow> re_lit ''('' line;
     (node_name, s2) \<leftarrow> re_plus (\<lambda>c. c \<noteq> CHR '','') s1;
     s3 \<leftarrow> re_lit '','' s2;
     s4 \<leftarrow> re_lit ''rank='' (re_star_space s3);
     (rank, s5) \<leftarrow> re_plus py_isdigit s4;
     s6 \<leftarrow> re_lit '','' s5;
     s7 \<leftarrow> re_lit ''pid='' (re_star_space s6);
     (pid, s8) \<leftarrow> re_plus py_isdigit s7;
     s9 \<leftarrow> re_lit '','' s8;
     s10 \<leftarrow> re_lit ''ip='' (re_star_space s9);
     (ip, s11) \<leftarrow> re_plus (\<lambda>c. c \<noteq> CHR '')'') s10;
     s12 \<leftarrow> re_lit '')'' s11;
     Some (node_name, rank, ip, takeWhile (\<lambda>c. c \<noteq> CHR 0x0A) (re_star_space s12))
   }"

text \<open>
  The function itself. \<^verbatim>\<open>int(rank)\<close> is applied to a non-empty run of
  digits; it raises ValueError when the run is longer than the interpreter's limit, and
  the source has no handler for it.
\<close>

definition parse_deployment_log_line :: "string \<Rightarrow> clock \<Rightarrow> py_error + log_event option" where
  "parse_deployment_log_line line now =
     (case re_match_log_line line of
        None \<Rightarrow> Inr None
      | Some (node_name, rank, ip, message) \<Rightarrow>
          (case py_int rank of
             Inl e \<Rightarrow> Inl e
           | Inr r \<Rightarrow>
               Inr (Some \<lparr>ev_node = node_name, ev_rank = r, ev_ip = ip,
                          ev_message = py_strip message, ev_timestamp = now\<rparr>)))"

text \<open>
  The line shape in the words of the specification: an opening parenthesis, a node
  name, \<open>rank=\<close> digits, \<open>pid=\<close> digits, \<open>ip=\<close> an address, a closing
  parenthesis, then the message; the fields are separated by a comma and optional
  white space. This predicate is the reference the matcher is compared with.
\<close>

definition line_shape :: "string \<Rightarrow> bool" where
  "line_shape line =
     (\<exists>node_name w1 rank w2 pid w3 ip rest.
        line = ''('' @ node_name @ '','' @ w1 @ ''rank='' @ rank @ '','' @ w2 @ ''pid='' @ pid
               @ '','' @ w3 @ ''ip='' @ ip @ '')'' @ rest
        \<and> node_name \<noteq> [] \<and> CHR '','' \<notin> set node_name
        \<and> rank \<noteq> [] \<and> list_all py_isdigit rank
        \<and> pid \<noteq> [] \<and> list_all py_isdigit pid
        \<and> ip \<noteq> [] \<and> CHR '')'' \<notin> set ip
        \<and> list_all py_isspace w1 \<and> list_all py_isspace w2 \<and> list_all py_isspace w3)"

section \<open>The node table of \<^verbatim>\<open>_monitor_deployment_progress\<close>\<close>

record deployment_node =
  node :: string
  rank :: int
  ip :: string
  recent_messages :: "string list"
  timestamp :: clock

type_synonym node_table = "string \<rightharpoonup> deployment_node"

text \<open>\<^verbatim>\<open>recent_messages.append(m)\<close>, then \<^verbatim>\<open>pop(0)\<close> when longer than 5.\<close>

definition push_recent :: "string list \<Rightarrow> string \<Rightarrow> string list" where
  "push_recent ms m = (let ms' = ms @ [m] in if length ms' > 5 then tl ms' else ms')"

definition node_id_of :: "log_event \<Rightarrow> string" where
  "node_id_of node_info = ev_node node_info @ ''-'' @ str_int (ev_rank node_info)"

text \<open>The body of the loop over new lines, for one parsed event.\<close>

definition record_event :: "node_table \<Rightarrow> log_event \<Rightarrow> node_table" where
  "record_event nodes node_info =
     (let node_id = node_id_of node_info;
          entry = (case nodes node_id of
                     None \<Rightarrow> \<lparr>node = ev_node node_info, rank = ev_rank node_info,
                              ip = ev_ip node_info, recent_messages = [],
                              timestamp = ev_timestamp node_info\<rparr>
                   | Some e \<Rightarrow> e)
      in nodes(node_id \<mapsto>
           entry\<lparr>ip := ev_ip node_info, timestamp := ev_timestamp node_info,
                 recent_messages := push_recent (recent_messages entry) (ev_message node_info)\<rparr>))"

definition record_events :: "node_table \<Rightarrow> log_event list \<Rightarrow> node_table" where
  "record_events nodes evs = foldl record_event nodes evs"

text \<open>
  One pass over the new lines of the log file: each line is stripped and parsed (with the
  clock reading taken at that moment); an exception leaves the loop over the lines, the
  table keeping the updates made so far.
\<close>

fun process_new_lines :: "node_table \<Rightarrow> (string \<times> clock) list \<Rightarrow> node_table" where
  "process_new_lines nodes [] = nodes"
| "process_new_lines nodes ((line, now) # rest) =
     (case parse_deployment_log_line (py_strip line) now of
        Inl e \<Rightarrow> nodes
      | Inr None \<Rightarrow> process_new_lines nodes rest
      | Inr (Some node_info) \<Rightarrow> process_new_lines (record_event nodes node_info) rest)"

text \<open>
  Two notions used to state what the buffer holds: the messages of the events that belong
  to one table key, in the order of the events, and the last five elements of a list.
\<close>

definition messages_for :: "string \<Rightarrow> log_event list \<Rightarrow> string list" where
  "messages_for k evs = map ev_message (filter (\<lambda>e. node_id_of e = k) evs)"

definition last5 :: "string list \<Rightarrow> string list" where
  "last5 ms = drop (length ms - 5) ms"

section \<open>The nuke command (\<^verbatim>\<open>spot_deployer/commands/nuke.py\<close>)\<close>

subsection \<open>Data\<close>

type_synonym region = string

definition AWS_REGIONS :: "region list" where
  "AWS_REGIONS =
     [''us-east-1'', ''us-east-2'', ''us-west-1'', ''us-west-2'', ''eu-west-1'', ''eu-west-2'',
      ''eu-west-3'', ''eu-central-1'', ''eu-north-1'', ''ap-northeast-1'', ''ap-northeast-2'',
      ''ap-northeast-3'', ''ap-southeast-1'', ''ap-southeast-2'', ''ap-south-1'',
      ''ca-central-1'', ''sa-east-1'', ''me-south-1'', ''af-south-1'', ''ap-east-1'']"

text \<open>
  An exception raised by the cloud client: a botocore \<^verbatim>\<open>ClientError\<close> carries the
  error code of its response; \<open>exn_text\<close> is what \<^verbatim>\<open>str(e)\<close> gives.
\<close>

datatype exn =
    ClientError (error_code: string) (exn_text: string)
  | OtherException (exn_text: string)

text \<open>
  One element of \<^verbatim>\<open>reservation["Instances"]\<close>, with the keys the scan reads. The
  keys read with \<^verbatim>\<open>.get\<close> may be absent; \<open>LaunchTime\<close> holds the text
  \<^verbatim>\<open>str\<close> gives for the launch time.
\<close>

record ec2_instance =
  InstanceId :: string
  StateName :: string
  InstanceType :: "string option"
  PublicIpAddress :: "string option"
  LaunchTime :: "string option"
  Tags :: "(string \<times> string) list"

text \<open>The dictionary the scan builds for an instance (also the shape of a persisted entry).\<close>

record instance_record =
  inst_id :: string
  inst_region :: region
  inst_state :: string
  inst_type :: string
  inst_public_ip :: string
  inst_launch_time :: string
  inst_tags :: "string \<rightharpoonup> string"

text \<open>
  A Python dictionary whose order and size matter is an association list with distinct
  keys in insertion order; storing under a key that is present replaces the value in
  place (\<^const>\<open>AList.update\<close>).
\<close>

type_synonym ('k, 'v) dict = "('k \<times> 'v) list"

definition dict_of_pairs :: "('k \<times> 'v) list \<Rightarrow> ('k, 'v) dict" where
  "dict_of_pairs ps = foldl (\<lambda>d (k, v). AList.update k v d) [] ps"

subsection \<open>\<^verbatim>\<open>find_spot_instances_in_region\<close>\<close>

definition instance_to_record :: "region \<Rightarrow> ec2_instance \<Rightarrow> instance_record" where
  "instance_to_record region instance =
     \<lparr>inst_id = InstanceId instance,
      inst_region = region,
      inst_state = StateName instance,
      inst_type = (case InstanceType instance of None \<Rightarrow> ''unknown'' | Some t \<Rightarrow> t),
      inst_public_ip = (case PublicIpAddress instance of None \<Rightarrow> ''N/A'' | Some a \<Rightarrow> a),
      inst_launch_time = (case LaunchTime instance of None \<Rightarrow> ''unknown'' | Some t \<Rightarrow> t),
      inst_tags = foldl (\<lambda>m (k, v). m(k \<mapsto> v)) Map.empty (Tags instance)\<rparr>"

text \<open>
  \<open>describe\<close> stands for the client's \<^verbatim>\<open>describe_instances\<close> call with the two
  filters of the source, in the given region: it raises or returns the reservations,
  each a list of instances.
\<close>

definition find_spot_instances_in_region ::
    "(region \<Rightarrow> exn + ec2_instance list list) \<Rightarrow> region \<Rightarrow> exn + instance_record list" where
  "find_spot_instances_in_region describe region =
     (case describe region of
        Inr reservations \<Rightarrow> Inr (concat (map (map (instance_to_record region)) reservations))
      | Inl e \<Rightarrow>
          (case e of
             ClientError code text \<Rightarrow>
               if code = ''UnauthorizedOperation'' then Inr [] else Inl e
           | OtherException text \<Rightarrow> Inl e))"

subsection \<open>\<^verbatim>\<open>terminate_instances_in_region\<close>\<close>

text \<open>
  \<open>terminate\<close> stands for the client's \<^verbatim>\<open>terminate_instances\<close> call: it raises or
  returns \<^verbatim>\<open>response["TerminatingInstances"]\<close> as pairs of instance id and current
  state name. Any exception is caught and turned into an entry for every requested id.
\<close>

definition terminate_instances_in_region ::
    "(region \<Rightarrow> string list \<Rightarrow> exn + (string \<times> string) list) \<Rightarrow> region \<Rightarrow> string list
       \<Rightarrow> (string, string) dict" where
  "terminate_instances_in_region terminate region instance_ids =
     (if instance_ids = [] then []
      else case terminate region instance_ids of
             Inr terminating \<Rightarrow> dict_of_pairs terminating
           | Inl e \<Rightarrow>
               dict_of_pairs (map (\<lambda>inst_id. (inst_id, ''ERROR: '' @ exn_text e)) instance_ids))"

subsection \<open>\<^verbatim>\<open>cmd_nuke\<close>, phase 1: the scan over all regions\<close>

text \<open>
  The thread pool runs one task per submitted region and \<^verbatim>\<open>as_completed\<close> hands the
  futures back one by one, in an order the scheduler decides. The model takes that order
  as the list \<open>completed\<close> of the regions of the futures, and the result of a future as
  the value \<open>worker region\<close>: an exception or the instances. One line is printed for
  each future; the lines are kept by kind.
\<close>

datatype scan_line =
    Found region nat
  | NoInstances region
  | ScanError region string

fun line_region :: "scan_line \<Rightarrow> region" where
  "line_region (Found r n) = r"
| "line_region (NoInstances r) = r"
| "line_region (ScanError r text) = r"

record scan_state =
  all_instances :: "instance_record list"
  region_errors :: "(region \<times> string) list"
  printed :: "scan_line list"

definition scan_step :: "(region \<Rightarrow> exn + instance_record list) \<Rightarrow> scan_state \<Rightarrow> region \<Rightarrow> scan_state" where
  "scan_step worker st region =
     (case worker region of
        Inr instances \<Rightarrow>
          if instances \<noteq> []
          then st\<lparr>all_instances := all_instances st @ instances,
                  printed := printed st @ [Found region (length instances)]\<rparr>
          else st\<lparr>printed := printed st @ [NoInstances region]\<rparr>
      | Inl e \<Rightarrow>
          st\<lparr>region_errors := region_errors st @ [(region, exn_text e)],
              printed := printed st @ [ScanError region (exn_text e)]\<rparr>)"

definition scan_regions :: "(region \<Rightarrow> exn + instance_record list) \<Rightarrow> region list \<Rightarrow> scan_state" where
  "scan_regions worker completed =
     foldl (scan_step worker) \<lparr>all_instances = [], region_errors = [], printed = []\<rparr> completed"

subsection \<open>\<^verbatim>\<open>cmd_nuke\<close>, phase 2: termination by region\<close>

definition add_to_group :: "(region, string list) dict \<Rightarrow> instance_record \<Rightarrow> (region, string list) dict" where
  "add_to_group groups inst =
     (case map_of groups (inst_region inst) of
        None \<Rightarrow> groups @ [(inst_region inst, [inst_id inst])]
      | Some ids \<Rightarrow> AList.update (inst_region inst) (ids @ [inst_id inst]) groups)"

definition termination_groups :: "instance_record list \<Rightarrow> (region, string list) dict" where
  "termination_groups instances = foldl add_to_group [] instances"

text \<open>
  The counters after one completed termination future. The worker catches every
  exception itself, so \<^verbatim>\<open>future.result()\<close> returns its dictionary.
\<close>

definition count_step ::
    "(region \<Rightarrow> string list \<Rightarrow> exn + (string \<times> string) list) \<Rightarrow> (region, string list) dict
       \<Rightarrow> nat \<times> nat \<Rightarrow> region \<Rightarrow> nat \<times> nat" where
  "count_step terminate groups counts region =
     (let instance_ids = (case map_of groups region of None \<Rightarrow> [] | Some ids \<Rightarrow> ids);
          results = terminate_instances_in_region terminate region instance_ids;
          success = length (filter (\<lambda>status. \<not> py_in ''ERROR'' status) (map snd results));
          failed = length results - success
      in (fst counts + success, snd counts + failed))"

subsection \<open>\<^verbatim>\<open>cmd_nuke\<close>: the update of the local state\<close>

text \<open>
  \<open>future_regions\<close> is \<^verbatim>\<open>future_to_region.values()\<close> of the termination phase: the
  region of every submitted termination future.
\<close>

definition batch_ids :: "(region, string list) dict \<Rightarrow> region list \<Rightarrow> string list" where
  "batch_ids groups future_regions =
     concat (map (\<lambda>r. case map_of groups r of None \<Rightarrow> [] | Some ids \<Rightarrow> ids) future_regions)"

definition terminated_ids ::
    "instance_record list \<Rightarrow> (region, string list) dict \<Rightarrow> region list \<Rightarrow> string set" where
  "terminated_ids instances groups future_regions =
     set (map inst_id
       (filter (\<lambda>inst. inst_id inst \<notin> set (batch_ids groups future_regions)) instances))"

definition remaining_instances ::
    "instance_record list \<Rightarrow> (region, string list) dict \<Rightarrow> region list \<Rightarrow> instance_record list
       \<Rightarrow> instance_record list" where
  "remaining_instances instances groups future_regions current_instances =
     filter (\<lambda>inst. inst_id inst \<notin> terminated_ids instances groups future_regions)
       current_instances"

subsection \<open>\<^verbatim>\<open>cmd_nuke\<close> as a whole\<close>

text \<open>
  What the command reads from its surroundings: the result of \<^verbatim>\<open>check_aws_auth\<close>,
  the two lines typed at the prompts, the cloud client, and the order in which the
  futures of each phase complete: \<open>scan_completed\<close> lists the regions of
  \<^const>\<open>AWS_REGIONS\<close> and \<open>terminate_completed\<close> the regions of the termination
  groups, each in some order.
\<close>

record nuke_env =
  aws_auth_ok :: bool
  first_input :: string
  final_input :: string
  describe_instances :: "region \<Rightarrow> exn + ec2_instance list list"
  scan_completed :: "region list"
  terminate_instances :: "region \<Rightarrow> string list \<Rightarrow> exn + (string \<times> string) list"
  terminate_completed :: "region list"

datatype nuke_exit = NotAuthenticated | Aborted | NothingFound | NukeCompleted nat nat

text \<open>
  The command returns how it ended and the persisted instance list it leaves behind
  (\<open>persisted\<close> is what \<^verbatim>\<open>state.load_instances()\<close> returns).
\<close>

definition cmd_nuke :: "nuke_env \<Rightarrow> instance_record list \<Rightarrow> bool \<Rightarrow> nuke_exit \<times> instance_record list" where
  "cmd_nuke env persisted force =
     (if \<not> aws_auth_ok env then (NotAuthenticated, persisted)
      else if \<not> force \<and> first_input env \<noteq> ''DESTROY ALL SPOTS'' then (Aborted, persisted)
      else
        let scan = scan_regions (find_spot_instances_in_region (describe_instances env))
                     (scan_completed env)
        in if all_instances scan = [] then (NothingFound, persisted)
           else if \<not> force \<and> final_input env \<noteq> ''YES'' then (Aborted, persisted)
           else
             let groups = termination_groups (all_instances scan);
                 future_regions = map fst groups;
                 (terminated_count, failed_count) =
                    foldl (count_step (terminate_instances env) groups) (0, 0)
                      (terminate_completed env)
             in (NukeCompleted terminated_count failed_count,
                 if terminated_count > 0
                 then remaining_instances (all_instances scan) groups future_regions persisted
                 else persisted))"

text \<open>The line the scan prints for a region, as a function of the result of its future.\<close>

definition outcome_line :: "(region \<Rightarrow> exn + instance_record list) \<Rightarrow> region \<Rightarrow> scan_line" where
  "outcome_line worker r =
     (case worker r of
        Inr instances \<Rightarrow> if instances \<noteq> [] then Found r (length instances) else NoInstances r
      | Inl e \<Rightarrow> ScanError r (exn_text e))"

section \<open>The external command gateway (\<^verbatim>\<open>ClusterManager.run_sky_cmd\<close>)\<close>

text \<open>
  What \<^verbatim>\<open>subprocess.run\<close> does with a command: the process completes with an exit
  code and its two captured outputs, the time limit expires, the executable is not
  found, or another exception is raised (the text is \<^verbatim>\<open>str(e)\<close>).
\<close>

datatype proc_result =
    Completed int string string
  | TimeoutExpired
  | FileNotFoundError string
  | ProcException string

text \<open>
  The manager's fields and the two paths the container is started with. Writing to the
  log and to the console is not modelled and is taken not to fail.
\<close>

record manager =
  docker_container :: string
  skypilot_image :: string
  home :: string
  cwd :: string

text \<open>\<^verbatim>\<open>" ".join(args)\<close>\<close>

fun join_space :: "string list \<Rightarrow> string" where
  "join_space [] = []"
| "join_space [a] = a"
| "join_space (a # b # rest) = a @ '' '' @ join_space (b # rest)"

definition docker_ps_cmd :: "manager \<Rightarrow> string list" where
  "docker_ps_cmd m =
     [''docker'', ''ps'', ''--filter'', ''name='' @ docker_container m,
      ''--filter'', ''status=running'', ''--quiet'']"

definition docker_run_cmd :: "manager \<Rightarrow> string list" where
  "docker_run_cmd m =
     [''docker'', ''run'', ''-td'', ''--rm'', ''--name'', docker_container m,
      ''-v'', home m @ ''/.sky:/root/.sky:rw'',
      ''-v'', home m @ ''/.aws:/root/.aws:rw'',
      ''-v'', home m @ ''/.config/gcloud:/root/.config/gcloud:rw'',
      ''-v'', cwd m @ '':/workspace:rw'',
      ''-w'', ''/workspace'', skypilot_image m]"

text \<open>
  \<open>run\<close> stands for \<^verbatim>\<open>subprocess.run\<close>: what happens when the given command is
  run. \<^verbatim>\<open>ensure_docker_container\<close> returns False on every exception.
\<close>

definition ensure_docker_container :: "(string list \<Rightarrow> proc_result) \<Rightarrow> manager \<Rightarrow> bool" where
  "ensure_docker_container run m =
     (case run (docker_ps_cmd m) of
        Completed rc out err \<Rightarrow>
          if py_strip out \<noteq> [] then True
          else (case run [''docker'', ''rm'', docker_container m] of
                  Completed rc1 out1 err1 \<Rightarrow>
                    (case run (docker_run_cmd m) of
                       Completed rc2 out2 err2 \<Rightarrow> rc2 = 0
                     | TimeoutExpired \<Rightarrow> False
                     | FileNotFoundError text \<Rightarrow> False
                     | ProcException text \<Rightarrow> False)
                | TimeoutExpired \<Rightarrow> False
                | FileNotFoundError text \<Rightarrow> False
                | ProcException text \<Rightarrow> False)
      | TimeoutExpired \<Rightarrow> False
      | FileNotFoundError text \<Rightarrow> False
      | ProcException text \<Rightarrow> False)"

text \<open>
  The gateway returns the triple \<open>(success, stdout, stderr)\<close>. The elapsed time is
  computed in the source for the debug lines only; it is not part of the result.
\<close>

definition run_sky_cmd ::
    "(string list \<Rightarrow> proc_result) \<Rightarrow> manager \<Rightarrow> string list \<Rightarrow> int \<Rightarrow> bool \<times> string \<times> string" where
  "run_sky_cmd run m args timeout =
     (if \<not> ensure_docker_container run m then (False, [], ''Failed to start container'')
      else
        let cmd = [''docker'', ''exec'', docker_container m, ''sky''] @ args;
            cmd_str = join_space args
        in case run cmd of
             Completed returncode out err \<Rightarrow> (returncode = 0, out, err)
           | TimeoutExpired \<Rightarrow>
               (False, [],
                ''Command 'sky '' @ cmd_str @ ''' timed out after '' @ str_int timeout
                  @ '' seconds'')
           | FileNotFoundError text \<Rightarrow> (False, [], text)
           | ProcException text \<Rightarrow> (False, [], text))"

section \<open>The completion detector (\<^verbatim>\<open>_monitor_deployment_progress_streaming\<close>)\<close>

subsection \<open>More string operations\<close>

text \<open>\<^verbatim>\<open>s.split(sep)\<close> for a one-character separator: empty pieces are kept.\<close>

fun split_on :: "char \<Rightarrow> string \<Rightarrow> string \<Rightarrow> string list" where
  "split_on sep cur [] = [rev cur]"
| "split_on sep cur (c # s) =
     (if c = sep then rev cur # split_on sep [] s else split_on sep (c # cur) s)"

definition py_split_lines :: "string \<Rightarrow> string list" where
  "py_split_lines s = split_on (CHR 0x0A) [] s"

text \<open>\<^verbatim>\<open>s.split()\<close>: the maximal runs of characters that are not white space.\<close>

fun split_space :: "string \<Rightarrow> string \<Rightarrow> string list" where
  "split_space cur [] = (if cur = [] then [] else [rev cur])"
| "split_space cur (c # s) =
     (if py_isspace c
      then (if cur = [] then split_space [] s else rev cur # split_space [] s)
      else split_space (c # cur) s)"

definition py_split :: "string \<Rightarrow> string list" where
  "py_split s = split_space [] s"

text \<open>
  \<^verbatim>\<open>s.lower()\<close>: below code point 256 the capital letters are A to Z and
  0xC0 to 0xDE without the multiplication sign 0xD7; each is 32 below its small letter.
\<close>

definition py_lower_char :: "char \<Rightarrow> char" where
  "py_lower_char c =
     (let n = (of_char c :: nat)
      in if (65 \<le> n \<and> n \<le> 90) \<or> (192 \<le> n \<and> n \<le> 222 \<and> n \<noteq> 215)
         then char_of (n + 32) else c)"

definition py_lower :: "string \<Rightarrow> string" where
  "py_lower s = map py_lower_char s"

subsection \<open>One tick\<close>

text \<open>
  The loop polls through \<^verbatim>\<open>self.run_sky_cmd\<close>. A call returns the gateway's triple;
  the loop body is also written to survive a call that raises, so the model lets a call
  raise too. The surroundings fix, for the \<open>n\<close>-th call the monitor makes, the reply
  to the given arguments and the milliseconds the call takes, and for the \<open>k\<close>-th
  \<^verbatim>\<open>time.sleep\<close> the milliseconds it sleeps longer than asked; the clock advances
  by the time the calls and the sleeps take. Panels shown on the display are not
  modelled; showing them is taken not to fail, and the user does not interrupt.
\<close>

datatype sky_result = Returned bool string string | Raised string

record monitor_env =
  sky_reply :: "nat \<Rightarrow> string list \<Rightarrow> sky_result"
  sky_millis :: "nat \<Rightarrow> nat"
  oversleep :: "nat \<Rightarrow> nat"

text \<open>
  The variables of the loop that outlive a tick, with the number of gateway calls made
  so far and the milliseconds spent in the calls of the current tick.
\<close>

record tick_state =
  deployment_cluster :: "string option"
  completion_detected :: bool
  calls :: nat
  spent :: nat

definition call_sky :: "monitor_env \<Rightarrow> tick_state \<Rightarrow> string list \<Rightarrow> sky_result \<times> tick_state" where
  "call_sky env st args =
     (sky_reply env (calls st) args,
      st\<lparr>calls := Suc (calls st), spent := spent st + sky_millis env (calls st)\<rparr>)"

definition completion_keywords :: "string list" where
  "completion_keywords = [''deployment complete'', ''cluster is running'', ''node is ready'']"

text \<open>
  The loop over the lines of the job queue. It has no \<^verbatim>\<open>break\<close>: every line that
  names the job is looked at. For a RUNNING job the last log lines are fetched, and the
  completion keywords are looked for in the fetched text whether or not the fetch
  succeeded. The result is the text of the exception that ended the loop, if any, and
  the state.
\<close>

fun scan_queue_lines ::
    "monitor_env \<Rightarrow> string \<Rightarrow> string \<Rightarrow> string list \<Rightarrow> tick_state \<Rightarrow> string option \<times> tick_state" where
  "scan_queue_lines env job_name cluster [] st = (None, st)"
| "scan_queue_lines env job_name cluster (qline # rest) st =
     (if py_in job_name qline then
        (let qparts = py_split qline in
         if length qparts \<ge> 7 then
           (let status = qparts ! 6 in
            if status = ''RUNNING'' then
              (case call_sky env st [''logs'', cluster, ''--tail=3''] of
                 (Raised text, st1) \<Rightarrow> (Some text, st1)
               | (Returned log_success log_stdout log_stderr, st1) \<Rightarrow>
                   if list_ex (\<lambda>keyword. py_in keyword (py_lower log_stdout)) completion_keywords
                   then scan_queue_lines env job_name cluster rest
                          (st1\<lparr>completion_detected := True\<rparr>)
                   else scan_queue_lines env job_name cluster rest st1)
            else if status = ''PENDING'' then scan_queue_lines env job_name cluster rest st
            else if status = ''SUCCEEDED'' then
              scan_queue_lines env job_name cluster rest (st\<lparr>completion_detected := True\<rparr>)
            else if status = ''FAILED'' then
              scan_queue_lines env job_name cluster rest (st\<lparr>completion_detected := True\<rparr>)
            else scan_queue_lines env job_name cluster rest st)
         else scan_queue_lines env job_name cluster rest st)
      else scan_queue_lines env job_name cluster rest st)"

text \<open>
  The loop over the lines of the status output: the first line that names a
  \<open>sky-\<close> cluster in state INIT or UP is taken (\<^verbatim>\<open>break\<close>), the others are
  skipped.
\<close>

fun scan_status_lines ::
    "monitor_env \<Rightarrow> string \<Rightarrow> string list \<Rightarrow> tick_state \<Rightarrow> string option \<times> tick_state" where
  "scan_status_lines env job_name [] st = (None, st)"
| "scan_status_lines env job_name (line # rest) st =
     (if py_in ''sky-'' line \<and> (py_in ''INIT'' line \<or> py_in ''UP'' line) then
        (case py_split line of
           [] \<Rightarrow> scan_status_lines env job_name rest st
         | potential_cluster # others \<Rightarrow>
             (let cluster = (case deployment_cluster st of
                               None \<Rightarrow> potential_cluster | Some c \<Rightarrow> c);
                  st1 = st\<lparr>deployment_cluster := Some cluster\<rparr>
              in if py_in ''UP'' line then
                   (case call_sky env st1 [''queue'', cluster] of
                      (Raised text, st2) \<Rightarrow> (Some text, st2)
                    | (Returned queue_success queue_stdout queue_stderr, st2) \<Rightarrow>
                        if queue_success \<and> queue_stdout \<noteq> []
                        then scan_queue_lines env job_name cluster
                               (py_split_lines queue_stdout) st2
                        else (None, st2))
                 else (None, st1)))
      else scan_status_lines env job_name rest st)"

text \<open>The body of the \<^verbatim>\<open>try\<close> of one tick.\<close>

definition monitor_tick :: "monitor_env \<Rightarrow> string \<Rightarrow> tick_state \<Rightarrow> string option \<times> tick_state" where
  "monitor_tick env job_name st =
     (case call_sky env st [''status''] of
        (Raised text, st1) \<Rightarrow> (Some text, st1)
      | (Returned status_success status_stdout status_stderr, st1) \<Rightarrow>
          if status_success \<and> status_stdout \<noteq> []
          then scan_status_lines env job_name (py_split_lines status_stdout) st1
          else (None, st1))"

subsection \<open>The polling loop\<close>

text \<open>\<^verbatim>\<open>timeout = 20 * 60\<close> seconds, in milliseconds; \<^verbatim>\<open>time.sleep(3)\<close>.\<close>

definition monitor_timeout :: nat where
  "monitor_timeout = 20 * 60 * 1000"

definition tick_sleep :: nat where
  "tick_sleep = 3000"

text \<open>
  \<open>elapsed\<close> is \<^verbatim>\<open>time.time() - start_time\<close> at the test of the loop and \<open>n\<close> the
  number of ticks done. An exception of the tick is caught inside the loop; the sleep
  follows in either case. The loop returns its last reading of the elapsed time, the
  number of ticks and the state.
\<close>

function monitor_loop ::
    "monitor_env \<Rightarrow> string \<Rightarrow> nat \<Rightarrow> nat \<Rightarrow> tick_state \<Rightarrow> nat \<times> nat \<times> tick_state" where
  "monitor_loop env job_name elapsed n st =
     (if elapsed < monitor_timeout \<and> \<not> completion_detected st then
        (case monitor_tick env job_name (st\<lparr>spent := 0\<rparr>) of
           (raised, st1) \<Rightarrow>
             monitor_loop env job_name
               (elapsed + spent st1 + tick_sleep + oversleep env n) (Suc n) st1)
      else (elapsed, n, st))"
  by pat_completeness auto
termination
  by (relation "measure (\<lambda>(env, job_name, elapsed, n, st). monitor_timeout - elapsed)")
    (auto simp: tick_sleep_def)

declare monitor_loop.simps [simp del]

text \<open>The panel shown when the loop has ended.\<close>

datatype monitor_outcome = MonitoringComplete | MonitoringTimeout nat

record monitor_result =
  outcome :: monitor_outcome
  final_elapsed :: nat
  ticks :: nat
  final_state :: tick_state

definition monitor_deployment_progress_streaming :: "monitor_env \<Rightarrow> string \<Rightarrow> monitor_result" where
  "monitor_deployment_progress_streaming env cluster_name =
     (case monitor_loop env cluster_name 0 0
             \<lparr>deployment_cluster = None, completion_detected = False, calls = 0, spent = 0\<rparr> of
        (elapsed, n, st) \<Rightarrow>
          \<lparr>outcome = (if completion_detected st then MonitoringComplete
                      else MonitoringTimeout (monitor_timeout div 1000 div 60)),
           final_elapsed = elapsed, ticks = n, final_state = st\<rparr>)"

subsection \<open>Notions used to state what the loop does\<close>

text \<open>
  A terminal job status is observed when a line of a job-queue reply names the job and
  has SUCCEEDED or FAILED as its seventh field, or when the text of a log reply holds one
  of the completion keywords. \<open>no_terminal_status\<close> says that no reply the
  surroundings can give to a queue or a logs call shows one; \<open>status_polls_fail\<close>
  says that every status poll raises, fails or returns nothing.
\<close>

definition terminal_row :: "string \<Rightarrow> string \<Rightarrow> bool" where
  "terminal_row job_name qline =
     (py_in job_name qline \<and> length (py_split qline) \<ge> 7
      \<and> (py_split qline ! 6 = ''SUCCEEDED'' \<or> py_split qline ! 6 = ''FAILED''))"

definition completion_text :: "string \<Rightarrow> bool" where
  "completion_text log_stdout =
     list_ex (\<lambda>keyword. py_in keyword (py_lower log_stdout)) completion_keywords"

definition no_terminal_status :: "monitor_env \<Rightarrow> string \<Rightarrow> bool" where
  "no_terminal_status env job_name =
     (\<forall>k cluster.
        (case sky_reply env k [''queue'', cluster] of
           Raised text \<Rightarrow> True
         | Returned ok out err \<Rightarrow> \<not> list_ex (terminal_row job_name) (py_split_lines out))
        \<and> (case sky_reply env k [''logs'', cluster, ''--tail=3''] of
             Raised text \<Rightarrow> True
           | Returned ok out err \<Rightarrow> \<not> completion_text out))"

definition status_polls_fail :: "monitor_env \<Rightarrow> bool" where
  "status_polls_fail env =
     (\<forall>k. case sky_reply env k [''status''] of
             Raised text \<Rightarrow> True
           | Returned ok out err \<Rightarrow> \<not> ok \<or> out = [])"

text \<open>
  The time the first \<open>c\<close> gateway calls take, and the time the first \<open>n\<close> sleeps
  take.
\<close>

definition call_millis :: "monitor_env \<Rightarrow> nat \<Rightarrow> nat" where
  "call_millis env c = (\<Sum>k<c. sky_millis env k)"

definition sleep_millis :: "monitor_env \<Rightarrow> nat \<Rightarrow> nat" where
  "sleep_millis env n = (\<Sum>k<n. tick_sleep + oversleep env k)"

text \<open>
  Auxiliary notions of the proofs: the calls made between two states are paid for in
  \<open>spent\<close>; some reply to a logs call holds a completion keyword; some reply to a
  queue call holds a terminal row.
\<close>

definition accounted :: "monitor_env \<Rightarrow> tick_state \<Rightarrow> tick_state \<Rightarrow> bool" where
  "accounted env st st1 =
     (calls st \<le> calls st1
      \<and> spent st1 + call_millis env (calls st) = spent st + call_millis env (calls st1))"

definition logs_complete :: "monitor_env \<Rightarrow> bool" where
  "logs_complete env =
     (\<exists>k c ok out err. sky_reply env k [''logs'', c, ''--tail=3''] = Returned ok out err
        \<and> completion_text out)"

definition queue_terminal :: "monitor_env \<Rightarrow> string \<Rightarrow> bool" where
  "queue_terminal env job_name =
     (\<exists>k c ok out err. sky_reply env k [''queue'', c] = Returned ok out err
        \<and> list_ex (terminal_row job_name) (py_split_lines out))"

chapter \<open>Verification\<close>

section \<open>Duration parsing\<close>

lemma py_strip_keeps_head:
  assumes "\<not> py_isspace c"
  shows "\<exists>r. py_strip (c # s) = c # r"
proof -
  have "dropWhile py_isspace (rev s @ [c]) = dropWhile py_isspace (rev s) @ [c]"
    using assms by (simp add: dropWhile_append3)
  then show ?thesis using assms by (simp add: py_strip_def)
qed

lemma py_int_backslash: "py_int (CHR 0x5C # s) = Inl ValueError"
proof -
  have ns: "\<not> py_isspace (CHR 0x5C)" by (simp add: py_isspace_def py_whitespace_def)
  obtain r where r: "py_strip (CHR 0x5C # s) = CHR 0x5C # r"
    using py_strip_keeps_head [OF ns] by blast
  have "\<not> int_body_ok (CHR 0x5C # r)"
    by (cases r) (simp_all add: py_isdigit_def)
  then show ?thesis by (simp add: py_int_def r)
qed

lemma re_match_unit_backslash: "re_match_unit u s = Some g \<Longrightarrow> \<exists>r. g = CHR 0x5C # r"
  by (auto simp: re_match_unit_def Let_def split: list.splits if_splits)

lemma re_search_unit_backslash: "re_search_unit u s = Some g \<Longrightarrow> \<exists>r. g = CHR 0x5C # r"
  by (induction s) (auto split: option.splits dest: re_match_unit_backslash)

lemma group_int_fails: "re_search_unit u s = Some g \<Longrightarrow> py_int g = Inl ValueError"
  using re_search_unit_backslash py_int_backslash by blast

text \<open>
  Whatever the duration string, the function returns 0 or raises ValueError: a group,
  when one is found, starts with a backslash and is no integer literal.
\<close>

lemma parse_duration_zero_or_error:
  "parse_duration_to_seconds d = Inr 0 \<or> parse_duration_to_seconds d = Inl ValueError"
  by (auto simp: parse_duration_to_seconds_def split: option.splits sum.splits
      dest: group_int_fails)

text \<open>
  C2 (the duration parser returns the number of seconds encoded: 330 for \<open>5m30s\<close>,
  8100 for \<open>2h15m\<close>, 45 for \<open>45s\<close>). The code does not: on each of the three
  strings of the claim no pattern matches, since each pattern asks for a backslash, and
  the function returns 0.
\<close>

theorem parse_duration_returns_zero:
  "parse_duration_to_seconds ''5m30s'' = Inr 0 \<and>
   parse_duration_to_seconds ''2h15m'' = Inr 0 \<and>
   parse_duration_to_seconds ''45s'' = Inr 0"
  by (simp add: parse_duration_to_seconds_def re_match_unit_def)

section \<open>Deployment log interpreter\<close>

lemma re_lit_Some_iff: "re_lit p s = Some r \<longleftrightarrow> s = p @ r"
proof
  assume "re_lit p s = Some r"
  then have "take (length p) s = p" and "r = drop (length p) s"
    by (auto simp: re_lit_def split: if_splits)
  then show "s = p @ r" by (metis append_take_drop_id)
next
  assume "s = p @ r"
  then show "re_lit p s = Some r" by (simp add: re_lit_def)
qed

lemma re_plus_SomeD:
  assumes "re_plus P s = Some (g, r)"
  shows "s = g @ r" and "g \<noteq> []" and "list_all P g" and "r = [] \<or> \<not> P (hd r)"
proof -
  from assms have g: "g = takeWhile P s" and r: "r = dropWhile P s" and ne: "takeWhile P s \<noteq> []"
    by (auto simp: re_plus_def split: if_splits)
  show "s = g @ r" by (simp add: g r)
  show "g \<noteq> []" using g ne by simp
  show "list_all P g" unfolding g list_all_iff by (auto dest: set_takeWhileD)
  show "r = [] \<or> \<not> P (hd r)" unfolding r by (metis hd_dropWhile)
qed

lemma re_plus_append:
  assumes "g \<noteq> []" and "list_all P g" and "\<not> P c"
  shows "re_plus P (g @ c # r) = Some (g, c # r)"
proof -
  have all: "\<And>x. x \<in> set g \<Longrightarrow> P x" using assms(2) by (simp add: list_all_iff)
  have "takeWhile P (g @ c # r) = g"
    using all assms(3) by (simp add: takeWhile_append2)
  moreover have "dropWhile P (g @ c # r) = c # r"
    using all assms(3) by (simp add: dropWhile_append2)
  ultimately show ?thesis using assms(1) by (simp add: re_plus_def)
qed

lemma re_star_space_decomp:
  "\<exists>w. s = w @ re_star_space s \<and> list_all py_isspace w"
proof -
  have "s = takeWhile py_isspace s @ re_star_space s" by (simp add: re_star_space_def)
  moreover have "list_all py_isspace (takeWhile py_isspace s)"
    unfolding list_all_iff by (auto dest: set_takeWhileD)
  ultimately show ?thesis by blast
qed

lemma re_star_space_append:
  assumes "list_all py_isspace w" and "\<not> py_isspace c"
  shows "re_star_space (w @ c # r) = c # r"
proof -
  have "\<And>x. x \<in> set w \<Longrightarrow> py_isspace x" using assms(1) by (simp add: list_all_iff)
  then show ?thesis using assms(2) by (simp add: re_star_space_def dropWhile_append2)
qed

lemma not_space_letters:
  "\<not> py_isspace (CHR ''r'')" "\<not> py_isspace (CHR ''p'')" "\<not> py_isspace (CHR ''i'')"
  by (simp_all add: py_isspace_def py_whitespace_def)

lemma not_digit_comma: "\<not> py_isdigit (CHR '','')"
  by (simp add: py_isdigit_def)

lemma re_lit_append: "re_lit p (p @ r) = Some r"
  by (simp add: re_lit_def)

lemma re_match_log_line_shape:
  assumes "line_shape line"
  shows "\<exists>g. re_match_log_line line = Some g"
proof -
  from assms obtain node_name w1 rank w2 pid w3 ip rest where
    line: "line = ''('' @ node_name @ '','' @ w1 @ ''rank='' @ rank @ '','' @ w2 @ ''pid='' @ pid
               @ '','' @ w3 @ ''ip='' @ ip @ '')'' @ rest"
    and n: "node_name \<noteq> []" "CHR '','' \<notin> set node_name"
    and r: "rank \<noteq> []" "list_all py_isdigit rank"
    and p: "pid \<noteq> []" "list_all py_isdigit pid"
    and i: "ip \<noteq> []" "CHR '')'' \<notin> set ip"
    and w: "list_all py_isspace w1" "list_all py_isspace w2" "list_all py_isspace w3"
    unfolding line_shape_def by blast
  have n': "list_all (\<lambda>c. c \<noteq> CHR '','') node_name" using n(2) by (auto simp: list_all_iff)
  have i': "list_all (\<lambda>c. c \<noteq> CHR '')'') ip" using i(2) by (auto simp: list_all_iff)
  define t12 where "t12 = rest"
  define t11 where "t11 = '')'' @ t12"
  define t10 where "t10 = ip @ t11"
  define t9 where "t9 = ''ip='' @ t10"
  define t8 where "t8 = '','' @ w3 @ t9"
  define t7 where "t7 = pid @ t8"
  define t6 where "t6 = ''pid='' @ t7"
  define t5 where "t5 = '','' @ w2 @ t6"
  define t4 where "t4 = rank @ t5"
  define t3 where "t3 = ''rank='' @ t4"
  define t2 where "t2 = '','' @ w1 @ t3"
  define t1 where "t1 = node_name @ t2"
  have s1: "re_lit ''('' line = Some t1"
    unfolding line t1_def t2_def t3_def t4_def t5_def t6_def t7_def t8_def t9_def t10_def
      t11_def t12_def by (rule re_lit_append)
  have s2: "re_plus (\<lambda>c. c \<noteq> CHR '','') t1 = Some (node_name, t2)"
    unfolding t1_def t2_def using re_plus_append [OF n(1) n', of "CHR '',''"] by simp
  have s3: "re_lit '','' t2 = Some (w1 @ t3)"
    unfolding t2_def by (rule re_lit_append)
  have s3': "re_star_space (w1 @ t3) = t3"
    unfolding t3_def using re_star_space_append [OF w(1) not_space_letters(1)] by simp
  have s4: "re_lit ''rank='' t3 = Some t4"
    unfolding t3_def by (rule re_lit_append)
  have s5: "re_plus py_isdigit t4 = Some (rank, t5)"
    unfolding t4_def t5_def using re_plus_append [OF r not_digit_comma] by simp
  have s6: "re_lit '','' t5 = Some (w2 @ t6)"
    unfolding t5_def by (rule re_lit_append)
  have s6': "re_star_space (w2 @ t6) = t6"
    unfolding t6_def using re_star_space_append [OF w(2) not_space_letters(2)] by simp
  have s7: "re_lit ''pid='' t6 = Some t7"
    unfolding t6_def by (rule re_lit_append)
  have s8: "re_plus py_isdigit t7 = Some (pid, t8)"
    unfolding t7_def t8_def using re_plus_append [OF p not_digit_comma] by simp
  have s9: "re_lit '','' t8 = Some (w3 @ t9)"
    unfolding t8_def by (rule re_lit_append)
  have s9': "re_star_space (w3 @ t9) = t9"
    unfolding t9_def using re_star_space_append [OF w(3) not_space_letters(3)] by simp
  have s10: "re_lit ''ip='' t9 = Some t10"
    unfolding t9_def by (rule re_lit_append)
  have s11: "re_plus (\<lambda>c. c \<noteq> CHR '')'') t10 = Some (ip, t11)"
    unfolding t10_def t11_def using re_plus_append [OF i(1) i', of "CHR '')''"] by simp
  have s12: "re_lit '')'' t11 = Some t12"
    unfolding t11_def by (rule re_lit_append)
  show ?thesis
    unfolding re_match_log_line_def
    by (simp add: s1 s2 s3 s3' s4 s5 s6 s6' s7 s8 s9 s9' s10 s11 s12)
qed

lemma re_match_log_line_SomeD:
  fixes rank ip :: string
  assumes "re_match_log_line line = Some (node_name, rank, ip, message)"
  shows "line_shape line" and "rank \<noteq> []" and "list_all py_isdigit rank"
proof -
  from assms obtain s1 s2 s3 s4 s5 s6 s7 pid s8 s9 s10 s11 s12 where
    a1: "re_lit ''('' line = Some s1"
    and a2: "re_plus (\<lambda>c. c \<noteq> CHR '','') s1 = Some (node_name, s2)"
    and a3: "re_lit '','' s2 = Some s3"
    and a4: "re_lit ''rank='' (re_star_space s3) = Some s4"
    and a5: "re_plus py_isdigit s4 = Some (rank, s5)"
    and a6: "re_lit '','' s5 = Some s6"
    and a7: "re_lit ''pid='' (re_star_space s6) = Some s7"
    and a8: "re_plus py_isdigit s7 = Some (pid, s8)"
    and a9: "re_lit '','' s8 = Some s9"
    and a10: "re_lit ''ip='' (re_star_space s9) = Some s10"
    and a11: "re_plus (\<lambda>c. c \<noteq> CHR '')'') s10 = Some (ip, s11)"
    and a12: "re_lit '')'' s11 = Some s12"
    unfolding re_match_log_line_def
    by (auto simp: bind_eq_Some_conv)
  obtain w1 where w1: "s3 = w1 @ re_star_space s3" "list_all py_isspace w1"
    using re_star_space_decomp by blast
  obtain w2 where w2: "s6 = w2 @ re_star_space s6" "list_all py_isspace w2"
    using re_star_space_decomp by blast
  obtain w3 where w3: "s9 = w3 @ re_star_space s9" "list_all py_isspace w3"
    using re_star_space_decomp by blast
  note n = re_plus_SomeD [OF a2] and r = re_plus_SomeD [OF a5]
    and p = re_plus_SomeD [OF a8] and i = re_plus_SomeD [OF a11]
  show "rank \<noteq> []" by (rule r(2))
  show "list_all py_isdigit rank" by (rule r(3))
  have e1: "line = ''('' @ s1" using a1 by (simp only: re_lit_Some_iff)
  have e3: "s2 = '','' @ s3" using a3 by (simp only: re_lit_Some_iff)
  have e4: "re_star_space s3 = ''rank='' @ s4" using a4 by (simp only: re_lit_Some_iff)
  have e6: "s5 = '','' @ s6" using a6 by (simp only: re_lit_Some_iff)
  have e7: "re_star_space s6 = ''pid='' @ s7" using a7 by (simp only: re_lit_Some_iff)
  have e9: "s8 = '','' @ s9" using a9 by (simp only: re_lit_Some_iff)
  have e10: "re_star_space s9 = ''ip='' @ s10" using a10 by (simp only: re_lit_Some_iff)
  have e12: "s11 = '')'' @ s12" using a12 by (simp only: re_lit_Some_iff)
  have "line = ''('' @ node_name @ '','' @ w1 @ ''rank='' @ rank @ '','' @ w2 @ ''pid='' @ pid
               @ '','' @ w3 @ ''ip='' @ ip @ '')'' @ s12"
    using e1 n(1) e3 w1(1) e4 r(1) e6 w2(1) e7 p(1) e9 w3(1) e10 i(1) e12 by simp
  moreover have "CHR '','' \<notin> set node_name" using n(3) by (auto simp: list_all_iff)
  moreover have "CHR '')'' \<notin> set ip" using i(3) by (auto simp: list_all_iff)
  ultimately show "line_shape line"
    unfolding line_shape_def using n(2) r(2,3) p(2,3) i(2) w1(2) w2(2) w3(2) by blast
qed

lemma py_strip_no_space:
  assumes "list_all (\<lambda>c. \<not> py_isspace c) s"
  shows "py_strip s = s"
proof (cases s rule: rev_cases)
  case Nil
  then show ?thesis by (simp add: py_strip_def)
next
  case (snoc ys y)
  with assms have y: "\<not> py_isspace y" by simp
  have "dropWhile py_isspace s = s"
    using assms by (cases s) simp_all
  then show ?thesis using y snoc by (simp add: py_strip_def)
qed

lemma digit_not_space: "py_isdigit c \<Longrightarrow> \<not> py_isspace c"
  by (auto simp: py_isdigit_def py_isspace_def py_whitespace_def)

lemma int_body_ok_digits: "ds \<noteq> [] \<Longrightarrow> list_all py_isdigit ds \<Longrightarrow> int_body_ok ds"
  by (induction ds rule: int_body_ok.induct) (auto simp: py_isdigit_def)

lemma py_int_digits:
  assumes "ds \<noteq> []" and "list_all py_isdigit ds"
  shows "py_int ds =
     (if length ds \<le> int_max_str_digits then Inr (int (digits_val ds)) else Inl ValueError)"
proof -
  have "list_all (\<lambda>c. \<not> py_isspace c) ds"
    using assms(2) by (auto simp: list_all_iff dest: digit_not_space)
  then have s: "py_strip ds = ds" by (rule py_strip_no_space)
  have h: "hd ds \<noteq> CHR ''-''" "hd ds \<noteq> CHR ''+''"
    using assms by (cases ds; auto simp: py_isdigit_def)+
  have f: "filter (\<lambda>c. c \<noteq> CHR ''_'') ds = ds"
    using assms(2) by (auto simp: list_all_iff py_isdigit_def intro!: filter_True)
  show ?thesis
    using int_body_ok_digits [OF assms] by (simp add: py_int_def s h f)
qed

lemma parse_line_None_iff:
  "parse_deployment_log_line line now = Inr None \<longleftrightarrow> \<not> line_shape line"
proof
  assume a: "parse_deployment_log_line line now = Inr None"
  show "\<not> line_shape line"
  proof
    assume "line_shape line"
    then obtain g where g: "re_match_log_line line = Some g"
      using re_match_log_line_shape by blast
    obtain n r i m where t: "g = (n, r, i, m)" by (cases g) auto
    from a g t show False
      by (cases "py_int r") (simp_all add: parse_deployment_log_line_def)
  qed
next
  assume "\<not> line_shape line"
  then have "re_match_log_line line = None"
    using re_match_log_line_SomeD(1) by (cases "re_match_log_line line") auto
  then show "parse_deployment_log_line line now = Inr None"
    by (simp add: parse_deployment_log_line_def)
qed

text \<open>
  The parser raises on exactly one kind of line: a line of the shape whose rank has more
  digits than the interpreter converts.
\<close>

lemma parse_line_raises_iff:
  "parse_deployment_log_line line now = Inl e \<longleftrightarrow>
     e = ValueError \<and>
     (\<exists>n r i m. re_match_log_line line = Some (n, r, i, m) \<and> int_max_str_digits < length r)"
proof (cases "re_match_log_line line")
  case None
  then show ?thesis by (simp add: parse_deployment_log_line_def)
next
  case (Some g)
  obtain n r i m where t: "g = (n, r, i, m)" by (cases g) auto
  have "py_int r =
      (if length r \<le> int_max_str_digits then Inr (int (digits_val r)) else Inl ValueError)"
    using re_match_log_line_SomeD(2,3) [OF Some [unfolded t]] by (rule py_int_digits)
  then show ?thesis using Some t by (auto simp: parse_deployment_log_line_def)
qed

text \<open>
  C8. The line \<open>(worker8, rank=8, pid=2816, ip=172.31.41.250) deployment complete\<close>
  parses to the event with node name \<open>worker8\<close>, rank 8, address
  \<open>172.31.41.250\<close> and message \<open>deployment complete\<close>; the same line without its
  rank field parses to no event; every line that does not have the shape
  \<open>(node_name, rank=..., pid=..., ip=...) message\<close> parses to no event, which is
  a returned value and not an error.
\<close>

theorem parse_deployment_log_line_shape:
  "parse_deployment_log_line
     ''(worker8, rank=8, pid=2816, ip=172.31.41.250) deployment complete'' now
   = Inr (Some \<lparr>ev_node = ''worker8'', ev_rank = 8, ev_ip = ''172.31.41.250'',
                ev_message = ''deployment complete'', ev_timestamp = now\<rparr>)
   \<and> parse_deployment_log_line
       ''(worker8, pid=2816, ip=172.31.41.250) deployment complete'' now = Inr None
   \<and> (\<not> line_shape line \<longrightarrow> parse_deployment_log_line line now = Inr None)"
proof -
  have "parse_deployment_log_line
     ''(worker8, rank=8, pid=2816, ip=172.31.41.250) deployment complete'' now
   = Inr (Some \<lparr>ev_node = ''worker8'', ev_rank = 8, ev_ip = ''172.31.41.250'',
                ev_message = ''deployment complete'', ev_timestamp = now\<rparr>)"
    by (simp add: parse_deployment_log_line_def re_match_log_line_def re_lit_def re_plus_def
        re_star_space_def py_isdigit_def py_isspace_def py_whitespace_def py_int_def
        int_max_str_digits_def         py_strip_def digits_val_def digit_val_def)
  moreover have "parse_deployment_log_line
       ''(worker8, pid=2816, ip=172.31.41.250) deployment complete'' now = Inr None"
    by (simp add: parse_deployment_log_line_def re_match_log_line_def re_lit_def re_plus_def
        re_star_space_def py_isspace_def py_whitespace_def)
  ultimately show ?thesis
    using parse_line_None_iff [of line now] by blast
qed

theorem parse_deployment_log_line_shape_witness:
  "\<not> line_shape ''Provisioning cluster sky-1234 in us-west-2''
   \<and> parse_deployment_log_line ''Provisioning cluster sky-1234 in us-west-2'' 0 = Inr None"
proof -
  have "parse_deployment_log_line ''Provisioning cluster sky-1234 in us-west-2'' 0 = Inr None"
    by (simp add: parse_deployment_log_line_def re_match_log_line_def re_lit_def)
  then have ns: "\<not> line_shape ''Provisioning cluster sky-1234 in us-west-2''"
    using parse_line_None_iff by blast
  from parse_deployment_log_line_shape [of 0 "''Provisioning cluster sky-1234 in us-west-2''"] ns
  show ?thesis by blast
qed

section \<open>The bounded buffer of recent messages\<close>

lemma push_recent_last5: "push_recent (last5 ms) m = last5 (ms @ [m])"
proof (cases "length ms < 5")
  case True
  then show ?thesis by (simp add: push_recent_def last5_def)
next
  case False
  then have "length ms - 5 < length ms" by simp
  then have "tl (drop (length ms - 5) ms @ [m]) = drop (Suc (length ms - 5)) ms @ [m]"
    by (metis Cons_nth_drop_Suc append_Cons list.sel(3))
  moreover have "Suc (length ms) - 5 = Suc (length ms - 5)" using False by simp
  ultimately show ?thesis using False by (simp add: push_recent_def last5_def)
qed

lemma push_recent_length: "length ms \<le> 5 \<Longrightarrow> length (push_recent ms m) \<le> 5"
  by (simp add: push_recent_def Let_def)

lemma record_events_snoc:
  "record_events nodes (evs @ [e]) = record_event (record_events nodes evs) e"
  by (simp add: record_events_def)

lemma record_events_recent:
  "map_option recent_messages (record_events Map.empty evs k) =
     (if messages_for k evs = [] then None else Some (last5 (messages_for k evs)))"
proof (induction evs rule: rev_induct)
  case Nil
  then show ?case by (simp add: record_events_def messages_for_def)
next
  case (snoc e evs)
  show ?case
  proof (cases "node_id_of e = k")
    case False
    then have "record_events Map.empty (evs @ [e]) k = record_events Map.empty evs k"
      by (simp add: record_events_snoc record_event_def Let_def)
    moreover have "messages_for k (evs @ [e]) = messages_for k evs"
      using False by (simp add: messages_for_def)
    ultimately show ?thesis using snoc by simp
  next
    case True
    have m: "messages_for k (evs @ [e]) = messages_for k evs @ [ev_message e]"
      using True by (simp add: messages_for_def)
    show ?thesis
    proof (cases "record_events Map.empty evs k")
      case None
      with snoc have "messages_for k evs = []" by (simp split: if_splits)
      then show ?thesis using None True m
        by (simp add: record_events_snoc record_event_def Let_def push_recent_def last5_def)
    next
      case (Some entry)
      with snoc have "recent_messages entry = last5 (messages_for k evs)"
        by (simp split: if_splits)
      then show ?thesis using Some True m
        by (simp add: record_events_snoc record_event_def Let_def push_recent_last5)
    qed
  qed
qed

lemma last5_length: "length (last5 ms) \<le> 5"
  by (simp add: last5_def)

lemma process_new_lines_events:
  "\<exists>evs. process_new_lines nodes ls = record_events nodes evs"
proof (induction ls arbitrary: nodes)
  case Nil
  have "process_new_lines nodes [] = record_events nodes []" by (simp add: record_events_def)
  then show ?case by blast
next
  case (Cons a ls)
  obtain line now where a: "a = (line, now)" by (cases a) auto
  show ?case
  proof (cases "parse_deployment_log_line (py_strip line) now")
    case (Inl e)
    have "process_new_lines nodes (a # ls) = record_events nodes []"
      using Inl a by (simp add: record_events_def)
    then show ?thesis by blast
  next
    case (Inr r)
    show ?thesis
    proof (cases r)
      case None
      then show ?thesis using Inr a Cons [of nodes] by simp
    next
      case (Some ev)
      obtain evs where "process_new_lines (record_event nodes ev) ls
          = record_events (record_event nodes ev) evs"
        using Cons by blast
      then have "process_new_lines nodes (a # ls) = record_events nodes (ev # evs)"
        using Inr Some a by (simp add: record_events_def)
      then show ?thesis by blast
    qed
  qed
qed

text \<open>
  C9. Starting from the empty node table of a monitoring session, after any sequence of
  parsed events the buffer of every table entry holds at most 5 messages, namely the
  last five messages logged for that entry, oldest first; the same bound holds after
  any list of raw log lines; and after 7 messages for one node the buffer holds
  messages 3 to 7 in the order they came.
\<close>

theorem recent_messages_bounded_fifo:
  "(record_events Map.empty evs k = Some entry \<longrightarrow>
      length (recent_messages entry) \<le> 5 \<and>
      recent_messages entry = last5 (messages_for k evs)) \<and>
   (process_new_lines Map.empty ls k = Some entry \<longrightarrow> length (recent_messages entry) \<le> 5) \<and>
   (length ms = 7 \<longrightarrow>
      map_option recent_messages
        (record_events Map.empty
           (map (\<lambda>(m, a, t). \<lparr>ev_node = n, ev_rank = r, ev_ip = a, ev_message = m,
                               ev_timestamp = t\<rparr>) ms)
           (n @ ''-'' @ str_int r))
      = Some (drop 2 (map fst ms)))"
proof -
  have one: "length (recent_messages entry) \<le> 5 \<and>
      recent_messages entry = last5 (messages_for k' evs')"
    if a: "record_events Map.empty evs' k' = Some entry" for evs' k'
    using a record_events_recent [of evs' k'] by (auto simp: last5_length split: if_splits)
  have lines: "length (recent_messages entry) \<le> 5"
    if b: "process_new_lines Map.empty ls k = Some entry"
  proof -
    obtain evs' where "process_new_lines Map.empty ls = record_events Map.empty evs'"
      using process_new_lines_events by blast
    with b one [of evs' k] show ?thesis by (simp add: last5_length)
  qed
  let ?evs = "map (\<lambda>(m, a, t). \<lparr>ev_node = n, ev_rank = r, ev_ip = a, ev_message = m,
                               ev_timestamp = t\<rparr>) ms"
  have msgs: "messages_for (n @ ''-'' @ str_int r) ?evs = map fst ms"
    by (induction ms) (auto simp: messages_for_def node_id_of_def)
  have two: "map_option recent_messages (record_events Map.empty ?evs (n @ ''-'' @ str_int r))
      = Some (drop 2 (map fst ms))" if l: "length ms = 7"
    using l msgs record_events_recent [of ?evs "n @ ''-'' @ str_int r"] by (auto simp: last5_def)
  show ?thesis using one [of evs k] lines two by blast
qed

theorem recent_messages_bounded_fifo_witness:
  "record_events Map.empty
      [\<lparr>ev_node = ''worker8'', ev_rank = 8, ev_ip = ''10.0.0.8'', ev_message = ''m1'',
        ev_timestamp = 11\<rparr>] ''worker8-8''
     = Some \<lparr>node = ''worker8'', rank = 8, ip = ''10.0.0.8'', recent_messages = [''m1''],
             timestamp = 11\<rparr>
   \<and> process_new_lines Map.empty [(''(worker8, rank=8, pid=1, ip=10.0.0.8) m1'', 11)] ''worker8-8''
     = Some \<lparr>node = ''worker8'', rank = 8, ip = ''10.0.0.8'', recent_messages = [''m1''],
             timestamp = 11\<rparr>
   \<and> length (recent_messages \<lparr>node = ''worker8'', rank = 8, ip = ''10.0.0.8'',
         recent_messages = [''m1''], timestamp = 11\<rparr>) \<le> 5
   \<and> length [(''m1'', ''10.0.0.8'', 11::nat), (''m2'', ''10.0.0.8'', 12), (''m3'', ''10.0.0.8'', 13),
         (''m4'', ''10.0.0.8'', 14), (''m5'', ''10.0.0.8'', 15), (''m6'', ''10.0.0.8'', 16),
         (''m7'', ''10.0.0.8'', 17)] = 7
   \<and> map_option recent_messages
        (record_events Map.empty
           (map (\<lambda>(m, a, t). \<lparr>ev_node = ''worker8'', ev_rank = 8, ev_ip = a, ev_message = m,
                               ev_timestamp = t\<rparr>)
              [(''m1'', ''10.0.0.8'', 11), (''m2'', ''10.0.0.8'', 12), (''m3'', ''10.0.0.8'', 13),
               (''m4'', ''10.0.0.8'', 14), (''m5'', ''10.0.0.8'', 15), (''m6'', ''10.0.0.8'', 16),
               (''m7'', ''10.0.0.8'', 17)])
           (''worker8'' @ ''-'' @ str_int 8))
      = Some [''m3'', ''m4'', ''m5'', ''m6'', ''m7'']"
proof -
  let ?e = "\<lparr>ev_node = ''worker8'', ev_rank = 8, ev_ip = ''10.0.0.8'', ev_message = ''m1'',
        ev_timestamp = 11::nat\<rparr>"
  let ?entry = "\<lparr>node = ''worker8'', rank = 8, ip = ''10.0.0.8'', recent_messages = [''m1''],
             timestamp = 11::nat\<rparr>"
  let ?ms = "[(''m1'', ''10.0.0.8'', 11::nat), (''m2'', ''10.0.0.8'', 12), (''m3'', ''10.0.0.8'', 13),
         (''m4'', ''10.0.0.8'', 14), (''m5'', ''10.0.0.8'', 15), (''m6'', ''10.0.0.8'', 16),
         (''m7'', ''10.0.0.8'', 17)]"
  have s8: "str_int 8 = ''8''" by code_simp
  have h1: "record_events Map.empty [?e] ''worker8-8'' = Some ?entry"
    by (simp add: record_events_def record_event_def node_id_of_def s8 push_recent_def)
  have p: "parse_deployment_log_line (py_strip ''(worker8, rank=8, pid=1, ip=10.0.0.8) m1'') 11
      = Inr (Some ?e)"
    by (simp add: parse_deployment_log_line_def re_match_log_line_def re_lit_def re_plus_def
        re_star_space_def py_isdigit_def py_isspace_def py_whitespace_def py_int_def
        int_max_str_digits_def         py_strip_def digits_val_def digit_val_def)
  have h2: "process_new_lines Map.empty [(''(worker8, rank=8, pid=1, ip=10.0.0.8) m1'', 11)]
      ''worker8-8'' = Some ?entry"
    by (simp add: p record_event_def node_id_of_def s8 push_recent_def)
  have h3: "length ?ms = 7" by simp
  note inst = recent_messages_bounded_fifo [of "[?e]" "''worker8-8''" ?entry
      "[(''(worker8, rank=8, pid=1, ip=10.0.0.8) m1'', 11)]" ?ms "''worker8''" 8]
  from inst h1 have c1: "length (recent_messages ?entry) \<le> 5" by blast
  from inst h3 have c3: "map_option recent_messages
        (record_events Map.empty
           (map (\<lambda>(m, a, t). \<lparr>ev_node = ''worker8'', ev_rank = 8, ev_ip = a, ev_message = m,
                               ev_timestamp = t\<rparr>) ?ms)
           (''worker8'' @ ''-'' @ str_int 8))
      = Some (drop 2 (map fst ?ms))" by blast
  have d: "drop 2 (map fst ?ms) = [''m3'', ''m4'', ''m5'', ''m6'', ''m7'']" by simp
  show ?thesis
    by (intro conjI) (rule h1, rule h2, rule c1, rule h3, rule c3 [unfolded d])
qed

section \<open>Termination in one region\<close>

lemma dict_of_pairs_snoc:
  "dict_of_pairs (ps @ [(k, v)]) = AList.update k v (dict_of_pairs ps)"
  by (simp add: dict_of_pairs_def)

lemma dict_of_pairs_keys: "fst ` set (dict_of_pairs ps) = fst ` set ps"
proof (induction ps rule: rev_induct)
  case Nil
  then show ?case by (simp add: dict_of_pairs_def)
next
  case (snoc p ps)
  obtain k v where p: "p = (k, v)" by (cases p) auto
  show ?case using snoc by (simp add: p dict_of_pairs_snoc dom_update image_Un)
qed

lemma dict_of_pairs_distinct: "distinct (map fst (dict_of_pairs ps))"
proof (induction ps rule: rev_induct)
  case Nil
  then show ?case by (simp add: dict_of_pairs_def)
next
  case (snoc p ps)
  obtain k v where p: "p = (k, v)" by (cases p) auto
  show ?case using snoc by (simp add: p dict_of_pairs_snoc distinct_update)
qed

lemma dict_of_pairs_lookup: "map_of (dict_of_pairs ps) = map_of (rev ps)"
proof (induction ps rule: rev_induct)
  case Nil
  then show ?case by (simp add: dict_of_pairs_def)
next
  case (snoc p ps)
  obtain k v where p: "p = (k, v)" by (cases p) auto
  show ?case using snoc by (simp add: p dict_of_pairs_snoc update_conv')
qed

lemma dict_of_pairs_entries: "set (dict_of_pairs ps) \<subseteq> set ps"
proof
  fix x assume x: "x \<in> set (dict_of_pairs ps)"
  obtain k v where kv: "x = (k, v)" by (cases x) auto
  have "map_of (dict_of_pairs ps) k = Some v"
    using x kv dict_of_pairs_distinct [of ps] by simp
  then have "map_of (rev ps) k = Some v" by (simp add: dict_of_pairs_lookup)
  then have "(k, v) \<in> set (rev ps)" by (rule map_of_SomeD)
  then show "x \<in> set ps" by (simp add: kv)
qed

text \<open>
  C3. For a non-empty list of instance ids, when the termination call of the region
  raises, \<open>terminate_instances_in_region\<close> returns a dictionary whose keys are exactly
  the requested ids, one entry for each, and every value is the error string
  \<open>ERROR: \<close> followed by the text of the exception.
\<close>

theorem terminate_whole_batch_failure:
  assumes "instance_ids \<noteq> []" and "terminate region instance_ids = Inl e"
  shows "fst ` set (terminate_instances_in_region terminate region instance_ids) = set instance_ids
    \<and> distinct (map fst (terminate_instances_in_region terminate region instance_ids))
    \<and> (\<forall>(inst_id, status) \<in> set (terminate_instances_in_region terminate region instance_ids).
          status = ''ERROR: '' @ exn_text e \<and> py_in ''ERROR'' status)"
proof -
  let ?ps = "map (\<lambda>inst_id. (inst_id, ''ERROR: '' @ exn_text e)) instance_ids"
  have r: "terminate_instances_in_region terminate region instance_ids = dict_of_pairs ?ps"
    using assms by (simp add: terminate_instances_in_region_def)
  have "fst ` set (dict_of_pairs ?ps) = set instance_ids"
    by (simp add: dict_of_pairs_keys image_image)
  moreover have "\<forall>(inst_id, status) \<in> set (dict_of_pairs ?ps).
      status = ''ERROR: '' @ exn_text e \<and> py_in ''ERROR'' status"
    using dict_of_pairs_entries [of ?ps] by auto
  ultimately show ?thesis by (simp add: r dict_of_pairs_distinct)
qed

theorem terminate_whole_batch_failure_witness:
  "[''i-0aaa'', ''i-0bbb''] \<noteq> []
   \<and> (\<lambda>(r::region) (ids::string list). Inl (OtherException ''RequestLimitExceeded'')
         :: exn + (string \<times> string) list) ''us-east-1'' [''i-0aaa'', ''i-0bbb'']
       = Inl (OtherException ''RequestLimitExceeded'')
   \<and> fst ` set (terminate_instances_in_region
         (\<lambda>r ids. Inl (OtherException ''RequestLimitExceeded'')) ''us-east-1''
         [''i-0aaa'', ''i-0bbb'']) = {''i-0aaa'', ''i-0bbb''}
   \<and> terminate_instances_in_region
         (\<lambda>r ids. Inl (OtherException ''RequestLimitExceeded'')) ''us-east-1''
         [''i-0aaa'', ''i-0bbb'']
       = [(''i-0aaa'', ''ERROR: RequestLimitExceeded''), (''i-0bbb'', ''ERROR: RequestLimitExceeded'')]"
proof -
  have h1: "[''i-0aaa'', ''i-0bbb''] \<noteq> []" by simp
  have h2: "(\<lambda>(r::region) (ids::string list). Inl (OtherException ''RequestLimitExceeded'')
         :: exn + (string \<times> string) list) ''us-east-1'' [''i-0aaa'', ''i-0bbb'']
       = Inl (OtherException ''RequestLimitExceeded'')" by simp
  note t = terminate_whole_batch_failure [of "[''i-0aaa'', ''i-0bbb'']"
      "\<lambda>r ids. Inl (OtherException ''RequestLimitExceeded'')" "''us-east-1''"
      "OtherException ''RequestLimitExceeded''"]
  from t h1 h2
  have "fst ` set (terminate_instances_in_region
         (\<lambda>r ids. Inl (OtherException ''RequestLimitExceeded'')) ''us-east-1''
         [''i-0aaa'', ''i-0bbb'']) = {''i-0aaa'', ''i-0bbb''}" by auto
  moreover have "terminate_instances_in_region
         (\<lambda>r ids. Inl (OtherException ''RequestLimitExceeded'')) ''us-east-1''
         [''i-0aaa'', ''i-0bbb'']
       = [(''i-0aaa'', ''ERROR: RequestLimitExceeded''), (''i-0bbb'', ''ERROR: RequestLimitExceeded'')]"
    by (simp add: terminate_instances_in_region_def dict_of_pairs_def)
  ultimately show ?thesis by simp
qed

text \<open>
  C7, as the code has it. A request with no ids gives the empty dictionary. Otherwise
  the dictionary has one entry for each of its keys; when the call raises, the keys are
  the requested ids and every status is \<open>ERROR: \<close> followed by the text of the
  exception; when the call returns, the keys are the instance ids listed in the
  response and each status is the current state name the response gives for that id
  (the last one, if an id is listed twice), whatever that name is.
\<close>

theorem terminate_outcomes:
  "(instance_ids = [] \<longrightarrow> terminate_instances_in_region terminate region instance_ids = [])
   \<and> distinct (map fst (terminate_instances_in_region terminate region instance_ids))
   \<and> (instance_ids \<noteq> [] \<and> terminate region instance_ids = Inl e \<longrightarrow>
        fst ` set (terminate_instances_in_region terminate region instance_ids) = set instance_ids
        \<and> (\<forall>(inst_id, status) \<in> set (terminate_instances_in_region terminate region instance_ids).
              status = ''ERROR: '' @ exn_text e))
   \<and> (instance_ids \<noteq> [] \<and> terminate region instance_ids = Inr terminating \<longrightarrow>
        fst ` set (terminate_instances_in_region terminate region instance_ids)
          = fst ` set terminating
        \<and> map_of (terminate_instances_in_region terminate region instance_ids)
          = map_of (rev terminating))"
proof -
  let ?ps = "map (\<lambda>inst_id. (inst_id, ''ERROR: '' @ exn_text e)) instance_ids"
  have d: "distinct (map fst (terminate_instances_in_region terminate region instance_ids))"
    by (simp add: terminate_instances_in_region_def dict_of_pairs_distinct split: sum.splits)
  have f: "fst ` set (dict_of_pairs ?ps) = set instance_ids"
    by (simp add: dict_of_pairs_keys image_image)
  have v: "\<forall>(inst_id, status) \<in> set (dict_of_pairs ?ps). status = ''ERROR: '' @ exn_text e"
    using dict_of_pairs_entries [of ?ps] by auto
  show ?thesis
    using d f v
    by (simp add: terminate_instances_in_region_def dict_of_pairs_keys dict_of_pairs_lookup)
qed

theorem terminate_outcomes_witness:
  "terminate_instances_in_region (\<lambda>r ids. Inr [(''i-0aaa'', ''shutting-down'')]) ''us-east-1'' [] = []
   \<and> fst ` set (terminate_instances_in_region
         (\<lambda>r ids. Inr [(''i-0aaa'', ''shutting-down''), (''i-0bbb'', ''shutting-down'')])
         ''us-east-1'' [''i-0aaa'', ''i-0bbb''])
       = {''i-0aaa'', ''i-0bbb''}
   \<and> fst ` set (terminate_instances_in_region
         (\<lambda>r ids. Inl (ClientError ''InvalidInstanceID.NotFound'' ''no such instance''))
         ''us-east-1'' [''i-0aaa'', ''i-0bbb''])
       = {''i-0aaa'', ''i-0bbb''}"
proof -
  note t1 = terminate_outcomes [of "[]" "\<lambda>r ids. Inr [(''i-0aaa'', ''shutting-down'')]"
      "''us-east-1''"]
  note t2 = terminate_outcomes [of "[''i-0aaa'', ''i-0bbb'']"
      "\<lambda>r ids. Inr [(''i-0aaa'', ''shutting-down''), (''i-0bbb'', ''shutting-down'')]"
      "''us-east-1''" _ "[(''i-0aaa'', ''shutting-down''), (''i-0bbb'', ''shutting-down'')]"]
  note t3 = terminate_outcomes [of "[''i-0aaa'', ''i-0bbb'']"
      "\<lambda>r ids. Inl (ClientError ''InvalidInstanceID.NotFound'' ''no such instance'')"
      "''us-east-1''" "ClientError ''InvalidInstanceID.NotFound'' ''no such instance''"]
  have a: "terminate_instances_in_region (\<lambda>r ids. Inr [(''i-0aaa'', ''shutting-down'')])
      ''us-east-1'' [] = []"
    using t1 by simp
  have b: "fst ` set (terminate_instances_in_region
         (\<lambda>r ids. Inr [(''i-0aaa'', ''shutting-down''), (''i-0bbb'', ''shutting-down'')])
         ''us-east-1'' [''i-0aaa'', ''i-0bbb''])
       = {''i-0aaa'', ''i-0bbb''}"
    using t2 by auto
  have c: "fst ` set (terminate_instances_in_region
         (\<lambda>r ids. Inl (ClientError ''InvalidInstanceID.NotFound'' ''no such instance''))
         ''us-east-1'' [''i-0aaa'', ''i-0bbb''])
       = {''i-0aaa'', ''i-0bbb''}"
    using t3 by auto
  show ?thesis using a b c by blast
qed

text \<open>
  C7 as stated fails: the response of a successful call reports \<open>shutting-down\<close> for
  \<open>i-0aaa\<close> and does not list \<open>i-0bbb\<close>; the status returned is neither
  \<open>terminated\<close> nor an \<open>error:\<close> string, and \<open>i-0bbb\<close> has no outcome.
\<close>

theorem terminate_status_counterexample:
  "terminate_instances_in_region (\<lambda>region ids. Inr [(''i-0aaa'', ''shutting-down'')])
      ''us-east-1'' [''i-0aaa'', ''i-0bbb'']
     = [(''i-0aaa'', ''shutting-down'')]
   \<and> ''shutting-down'' \<noteq> ''terminated''
   \<and> take 6 ''shutting-down'' \<noteq> ''error:''
   \<and> ''i-0bbb'' \<notin> fst ` set (terminate_instances_in_region
        (\<lambda>region ids. Inr [(''i-0aaa'', ''shutting-down'')]) ''us-east-1'' [''i-0aaa'', ''i-0bbb''])"
  by (simp add: terminate_instances_in_region_def dict_of_pairs_def)

section \<open>The scan over the regions\<close>

lemma scan_regions_snoc:
  "scan_regions worker (rs @ [r]) = scan_step worker (scan_regions worker rs) r"
  by (simp add: scan_regions_def)

lemma scan_regions_fields:
  "printed (scan_regions worker rs) = map (outcome_line worker) rs
   \<and> all_instances (scan_regions worker rs)
       = concat (map (\<lambda>r. case worker r of Inr instances \<Rightarrow> instances | Inl e \<Rightarrow> []) rs)
   \<and> region_errors (scan_regions worker rs)
       = concat (map (\<lambda>r. case worker r of Inr instances \<Rightarrow> [] | Inl e \<Rightarrow> [(r, exn_text e)]) rs)"
proof (induction rs rule: rev_induct)
  case Nil
  then show ?case by (simp add: scan_regions_def)
next
  case (snoc r rs)
  then show ?case
    by (cases "worker r") (simp_all add: scan_regions_snoc scan_step_def outcome_line_def)
qed

lemma line_region_outcome: "line_region (outcome_line worker r) = r"
  by (simp add: outcome_line_def split: sum.splits)

text \<open>
  C5. Whatever the worker does in each region and in whatever order the futures
  complete, the scan reports exactly one outcome for each submitted region (a count of
  instances, no instances, or the captured error); the instances of every region whose
  worker returned are in the aggregate list and the error of every region whose worker
  raised is in the list of region errors, so no region hides another one's result.
\<close>

theorem scan_one_outcome_per_region:
  assumes "mset completed = mset regions"
  shows "mset (map line_region (printed (scan_regions worker completed))) = mset regions
    \<and> printed (scan_regions worker completed) = map (outcome_line worker) completed
    \<and> (\<forall>r \<in> set regions. \<forall>instances. worker r = Inr instances \<longrightarrow>
          set instances \<subseteq> set (all_instances (scan_regions worker completed)))
    \<and> (\<forall>r \<in> set regions. \<forall>e. worker r = Inl e \<longrightarrow>
          (r, exn_text e) \<in> set (region_errors (scan_regions worker completed)))"
proof -
  note f = scan_regions_fields [of worker completed]
  have s: "set completed = set regions" using assms by (metis set_mset_mset)
  have "map line_region (map (outcome_line worker) completed) = completed"
    by (simp add: comp_def line_region_outcome)
  then have a: "mset (map line_region (printed (scan_regions worker completed))) = mset regions"
    using f assms by simp
  have b: "set instances \<subseteq> set (all_instances (scan_regions worker completed))"
    if "r \<in> set regions" "worker r = Inr instances" for r instances
    using that f s by force
  have c: "(r, exn_text e) \<in> set (region_errors (scan_regions worker completed))"
    if "r \<in> set regions" "worker r = Inl e" for r e
    using that f s by force
  show ?thesis using a b c f by blast
qed

theorem scan_one_outcome_per_region_witness:
  "mset [''eu-west-1'', ''us-east-1'', ''us-west-2''] = mset [''us-east-1'', ''us-west-2'', ''eu-west-1'']
   \<and> mset (map line_region (printed (scan_regions
        (\<lambda>r. if r = ''us-west-2'' then Inl (OtherException ''endpoint unreachable'')
              else Inr [])
        [''eu-west-1'', ''us-east-1'', ''us-west-2''])))
      = mset [''us-east-1'', ''us-west-2'', ''eu-west-1'']
   \<and> (''us-west-2'', ''endpoint unreachable'') \<in> set (region_errors (scan_regions
        (\<lambda>r. if r = ''us-west-2'' then Inl (OtherException ''endpoint unreachable'')
              else Inr [])
        [''eu-west-1'', ''us-east-1'', ''us-west-2'']))"
proof -
  let ?w = "\<lambda>r. if r = ''us-west-2'' then Inl (OtherException ''endpoint unreachable'')
              else (Inr [] :: exn + instance_record list)"
  have h: "mset [''eu-west-1'', ''us-east-1'', ''us-west-2'']
      = mset [''us-east-1'', ''us-west-2'', ''eu-west-1'']" by simp
  have w: "?w ''us-west-2'' = Inl (OtherException ''endpoint unreachable'')" by simp
  note t = scan_one_outcome_per_region [of "[''eu-west-1'', ''us-east-1'', ''us-west-2'']"
      "[''us-east-1'', ''us-west-2'', ''eu-west-1'']" ?w, OF h]
  from t have a: "mset (map line_region (printed (scan_regions ?w
        [''eu-west-1'', ''us-east-1'', ''us-west-2''])))
      = mset [''us-east-1'', ''us-west-2'', ''eu-west-1'']" by blast
  from t w have b: "(''us-west-2'', exn_text (OtherException ''endpoint unreachable''))
      \<in> set (region_errors (scan_regions ?w [''eu-west-1'', ''us-east-1'', ''us-west-2'']))"
    by (metis list.set_intros(1,2))
  show ?thesis using h a b by simp
qed

lemma find_unauthorized:
  "describe region = Inl (ClientError ''UnauthorizedOperation'' text) \<Longrightarrow>
   find_spot_instances_in_region describe region = Inr []"
  by (simp add: find_spot_instances_in_region_def)

text \<open>
  C4. A region whose \<open>describe_instances\<close> call raises a client error with code
  \<open>UnauthorizedOperation\<close> is scanned as an empty success; scanning two regions in
  either completion order, where region \<open>a\<close> returns two instances and region \<open>b\<close> is
  not authorized, gives exactly the two instances of \<open>a\<close> and no region error.
\<close>

theorem unauthorized_region_is_empty_success:
  assumes "describe b = Inl (ClientError ''UnauthorizedOperation'' text)"
    and "describe a = Inr reservations"
    and "concat reservations = [i1, i2]"
    and "completed = [a, b] \<or> completed = [b, a]"
    and "a \<noteq> b"
  shows "find_spot_instances_in_region describe b = Inr []
    \<and> all_instances (scan_regions (find_spot_instances_in_region describe) completed)
        = [instance_to_record a i1, instance_to_record a i2]
    \<and> region_errors (scan_regions (find_spot_instances_in_region describe) completed) = []
    \<and> set (printed (scan_regions (find_spot_instances_in_region describe) completed))
        = {Found a 2, NoInstances b}"
proof -
  have fb: "find_spot_instances_in_region describe b = Inr []"
    using assms(1) by (rule find_unauthorized)
  have "concat (map (map (instance_to_record a)) reservations)
      = map (instance_to_record a) (concat reservations)"
    by (simp add: map_concat)
  then have fa: "find_spot_instances_in_region describe a
      = Inr [instance_to_record a i1, instance_to_record a i2]"
    using assms(2,3) by (simp add: find_spot_instances_in_region_def)
  show ?thesis
    using assms(4) fa fb by (auto simp: scan_regions_def scan_step_def)
qed

theorem unauthorized_region_is_empty_success_witness:
  "all_instances (scan_regions (find_spot_instances_in_region
       (\<lambda>r. if r = ''us-east-1''
             then Inr [[\<lparr>InstanceId = ''i-0aaa'', StateName = ''running'', InstanceType = None,
                         PublicIpAddress = None, LaunchTime = None, Tags = []\<rparr>,
                        \<lparr>InstanceId = ''i-0bbb'', StateName = ''pending'', InstanceType = None,
                         PublicIpAddress = None, LaunchTime = None, Tags = []\<rparr>]]
             else Inl (ClientError ''UnauthorizedOperation'' ''not authorized'')))
       [''me-south-1'', ''us-east-1''])
     = [instance_to_record ''us-east-1''
          \<lparr>InstanceId = ''i-0aaa'', StateName = ''running'', InstanceType = None,
           PublicIpAddress = None, LaunchTime = None, Tags = []\<rparr>,
        instance_to_record ''us-east-1''
          \<lparr>InstanceId = ''i-0bbb'', StateName = ''pending'', InstanceType = None,
           PublicIpAddress = None, LaunchTime = None, Tags = []\<rparr>]
   \<and> region_errors (scan_regions (find_spot_instances_in_region
       (\<lambda>r. if r = ''us-east-1''
             then Inr [[\<lparr>InstanceId = ''i-0aaa'', StateName = ''running'', InstanceType = None,
                         PublicIpAddress = None, LaunchTime = None, Tags = []\<rparr>,
                        \<lparr>InstanceId = ''i-0bbb'', StateName = ''pending'', InstanceType = None,
                         PublicIpAddress = None, LaunchTime = None, Tags = []\<rparr>]]
             else Inl (ClientError ''UnauthorizedOperation'' ''not authorized'')))
       [''me-south-1'', ''us-east-1'']) = []"
proof -
  let ?d = "\<lambda>r. if r = ''us-east-1''
             then Inr [[\<lparr>InstanceId = ''i-0aaa'', StateName = ''running'', InstanceType = None,
                         PublicIpAddress = None, LaunchTime = None, Tags = []\<rparr>,
                        \<lparr>InstanceId = ''i-0bbb'', StateName = ''pending'', InstanceType = None,
                         PublicIpAddress = None, LaunchTime = None, Tags = []\<rparr>]]
             else Inl (ClientError ''UnauthorizedOperation'' ''not authorized'')"
  have h1: "?d ''me-south-1'' = Inl (ClientError ''UnauthorizedOperation'' ''not authorized'')"
    by simp
  have h2: "?d ''us-east-1'' = Inr [[\<lparr>InstanceId = ''i-0aaa'', StateName = ''running'', InstanceType = None,
                         PublicIpAddress = None, LaunchTime = None, Tags = []\<rparr>,
                        \<lparr>InstanceId = ''i-0bbb'', StateName = ''pending'', InstanceType = None,
                         PublicIpAddress = None, LaunchTime = None, Tags = []\<rparr>]]"
    by simp
  have h3: "[''me-south-1'', ''us-east-1''] = [''us-east-1'', ''me-south-1'']
      \<or> [''me-south-1'', ''us-east-1''] = [''me-south-1'', ''us-east-1'']" by simp
  have h4: "''us-east-1'' \<noteq> ''me-south-1''" by simp
  have hc: "concat [[\<lparr>InstanceId = ''i-0aaa'', StateName = ''running'', InstanceType = None,
                         PublicIpAddress = None, LaunchTime = None, Tags = []\<rparr>,
                        \<lparr>InstanceId = ''i-0bbb'', StateName = ''pending'', InstanceType = None,
                         PublicIpAddress = None, LaunchTime = None, Tags = []\<rparr>]]
      = [\<lparr>InstanceId = ''i-0aaa'', StateName = ''running'', InstanceType = None,
                         PublicIpAddress = None, LaunchTime = None, Tags = []\<rparr>,
                        \<lparr>InstanceId = ''i-0bbb'', StateName = ''pending'', InstanceType = None,
                         PublicIpAddress = None, LaunchTime = None, Tags = []\<rparr>]" by simp
  note t = unauthorized_region_is_empty_success [of ?d "''me-south-1''" "''not authorized''"
      "''us-east-1''" _ _ _ "[''me-south-1'', ''us-east-1'']"]
  from t [OF h1 h2 hc h3 h4] show ?thesis by blast
qed

section \<open>The update of the local state after a nuke\<close>

lemma add_to_group_lookup:
  "map_of (add_to_group groups inst) r =
     (if r = inst_region inst
      then Some ((case map_of groups r of None \<Rightarrow> [] | Some ids \<Rightarrow> ids) @ [inst_id inst])
      else map_of groups r)"
  by (auto simp: add_to_group_def update_conv' map_add_def split: option.splits)

lemma termination_groups_snoc:
  "termination_groups (xs @ [x]) = add_to_group (termination_groups xs) x"
  by (simp add: termination_groups_def)

lemma termination_groups_lookup:
  "map_of (termination_groups xs) r =
     (if \<exists>i \<in> set xs. inst_region i = r
      then Some (map inst_id (filter (\<lambda>i. inst_region i = r) xs))
      else None)"
proof (induction xs rule: rev_induct)
  case Nil
  then show ?case by (simp add: termination_groups_def)
next
  case (snoc x xs)
  show ?case
    unfolding termination_groups_snoc add_to_group_lookup snoc
    by auto
qed

lemma in_concat_map: "r \<in> set rs \<Longrightarrow> x \<in> set (f r) \<Longrightarrow> x \<in> set (concat (map f rs))"
  by auto

lemma all_ids_in_batches:
  assumes "i \<in> set xs"
  shows "inst_id i \<in> set (batch_ids (termination_groups xs) (map fst (termination_groups xs)))"
proof -
  let ?g = "termination_groups xs"
  let ?f = "\<lambda>r. case map_of ?g r of None \<Rightarrow> [] | Some ids \<Rightarrow> ids"
  have l: "map_of ?g (inst_region i)
      = Some (map inst_id (filter (\<lambda>j. inst_region j = inst_region i) xs))"
    using assms by (auto simp: termination_groups_lookup)
  then have k: "inst_region i \<in> set (map fst ?g)"
    by (metis domI dom_map_of_conv_image_fst set_map)
  have m: "inst_id i \<in> set (map inst_id (filter (\<lambda>j. inst_region j = inst_region i) xs))"
    using assms by auto
  have "inst_id i \<in> set (?f (inst_region i))"
    using m by (simp only: l option.case)
  with k show ?thesis
    unfolding batch_ids_def by (rule in_concat_map)
qed

lemma terminated_ids_empty:
  "terminated_ids xs (termination_groups xs) (map fst (termination_groups xs)) = {}"
  using all_ids_in_batches by (auto simp: terminated_ids_def)

lemma remaining_is_current:
  "remaining_instances xs (termination_groups xs) (map fst (termination_groups xs)) current
     = current"
  by (simp add: remaining_instances_def terminated_ids_empty)

lemma cmd_nuke_keeps_persisted: "snd (cmd_nuke env persisted force) = persisted"
  by (simp add: cmd_nuke_def Let_def remaining_is_current split: prod.splits)

text \<open>
  C1 (after a termination phase with at least one terminated instance, every id that
  was part of a termination batch is removed from the persisted list). The code does
  not: with one spot instance \<open>i-0aaa\<close> found in \<open>us-east-1\<close>, both confirmations
  given and the termination reported as \<open>shutting-down\<close> (one terminated, none
  failed), the persisted list still holds \<open>i-0aaa\<close> afterwards.
\<close>

theorem cmd_nuke_leaves_terminated_id:
  "cmd_nuke
     \<lparr>aws_auth_ok = True, first_input = ''DESTROY ALL SPOTS'', final_input = ''YES'',
      describe_instances =
        (\<lambda>r. if r = ''us-east-1''
             then Inr [[\<lparr>InstanceId = ''i-0aaa'', StateName = ''running'', InstanceType = None,
                         PublicIpAddress = None, LaunchTime = None, Tags = []\<rparr>]]
             else Inr []),
      scan_completed = AWS_REGIONS,
      terminate_instances = (\<lambda>r ids. Inr (map (\<lambda>i. (i, ''shutting-down'')) ids)),
      terminate_completed = [''us-east-1'']\<rparr>
     [\<lparr>inst_id = ''i-0aaa'', inst_region = ''us-east-1'', inst_state = ''running'',
       inst_type = ''unknown'', inst_public_ip = ''N/A'', inst_launch_time = ''unknown'',
       inst_tags = Map.empty\<rparr>,
      \<lparr>inst_id = ''i-0bbb'', inst_region = ''eu-west-1'', inst_state = ''running'',
       inst_type = ''unknown'', inst_public_ip = ''N/A'', inst_launch_time = ''unknown'',
       inst_tags = Map.empty\<rparr>]
     False
   = (NukeCompleted 1 0,
      [\<lparr>inst_id = ''i-0aaa'', inst_region = ''us-east-1'', inst_state = ''running'',
        inst_type = ''unknown'', inst_public_ip = ''N/A'', inst_launch_time = ''unknown'',
        inst_tags = Map.empty\<rparr>,
       \<lparr>inst_id = ''i-0bbb'', inst_region = ''eu-west-1'', inst_state = ''running'',
        inst_type = ''unknown'', inst_public_ip = ''N/A'', inst_launch_time = ''unknown'',
        inst_tags = Map.empty\<rparr>])"
  by (simp add: cmd_nuke_def AWS_REGIONS_def scan_regions_def scan_step_def
      find_spot_instances_in_region_def instance_to_record_def termination_groups_def
      add_to_group_def count_step_def terminate_instances_in_region_def dict_of_pairs_def
      remaining_instances_def terminated_ids_def batch_ids_def)

section \<open>The external command gateway\<close>

lemma py_in_prefix: "py_in sub (sub @ s)"
proof (cases "sub @ s")
  case Nil
  then show ?thesis by simp
next
  case (Cons a list)
  have "take (length sub) (sub @ s) = sub" by simp
  then show ?thesis unfolding Cons by simp
qed

lemma py_in_append: "py_in sub (p @ sub @ s)"
proof (induction p)
  case Nil
  then show ?case by (simp add: py_in_prefix)
next
  case (Cons a p)
  then show ?case by simp
qed

lemma timed_out_in_message:
  "py_in ''timed out'' (''Command 'sky '' @ cmd_str @ ''' timed out after '' @ n @ '' seconds'')"
proof -
  have "''Command 'sky '' @ cmd_str @ ''' timed out after '' @ n @ '' seconds''
      = (''Command 'sky '' @ cmd_str @ ''' '') @ ''timed out'' @ ('' after '' @ n @ '' seconds'')"
    by simp
  then show ?thesis by (simp only: py_in_append)
qed

text \<open>
  C6, as the code has it. The gateway returns a triple for every outcome of the
  container check and of the subprocess, and raises for none of them. When the
  container cannot be started the triple is \<open>(False, "", "Failed to start container")\<close>;
  when the process completes, success is \<open>returncode = 0\<close> and the two outputs are
  the process's own; when the time limit expires, success is False and the error text
  is \<open>Command 'sky <args>' timed out after <timeout> seconds\<close>, which contains
  \<open>timed out\<close>; on any other exception success is False and the error text is the text
  of the exception. The triple has no elapsed time.
\<close>

theorem run_sky_cmd_outcomes:
  "(\<not> ensure_docker_container run m \<longrightarrow>
       run_sky_cmd run m args timeout = (False, [], ''Failed to start container''))
   \<and> (ensure_docker_container run m \<longrightarrow>
       (case run ([''docker'', ''exec'', docker_container m, ''sky''] @ args) of
          Completed returncode out err \<Rightarrow>
            run_sky_cmd run m args timeout = (returncode = 0, out, err)
        | TimeoutExpired \<Rightarrow>
            run_sky_cmd run m args timeout =
              (False, [], ''Command 'sky '' @ join_space args @ ''' timed out after ''
                 @ str_int timeout @ '' seconds'')
            \<and> py_in ''timed out'' (snd (snd (run_sky_cmd run m args timeout)))
        | FileNotFoundError text \<Rightarrow> run_sky_cmd run m args timeout = (False, [], text)
        | ProcException text \<Rightarrow> run_sky_cmd run m args timeout = (False, [], text)))"
  using timed_out_in_message [of "join_space args" "str_int timeout"]
  by (simp add: run_sky_cmd_def split: proc_result.splits)

theorem run_sky_cmd_outcomes_witness:
  "\<not> ensure_docker_container (\<lambda>cmd. FileNotFoundError ''No such file or directory: docker'')
       \<lparr>docker_container = ''skypilot-cluster-deploy'',
        skypilot_image = ''berkeleyskypilot/skypilot'', home = ''/root'', cwd = ''/work''\<rparr>
   \<and> run_sky_cmd (\<lambda>cmd. FileNotFoundError ''No such file or directory: docker'')
       \<lparr>docker_container = ''skypilot-cluster-deploy'',
        skypilot_image = ''berkeleyskypilot/skypilot'', home = ''/root'', cwd = ''/work''\<rparr>
       [''status''] 10
     = (False, [], ''Failed to start container'')
   \<and> ensure_docker_container
       (\<lambda>cmd. if cmd = [''docker'', ''exec'', ''skypilot-cluster-deploy'', ''sky'', ''status'']
              then TimeoutExpired else Completed 0 ''4f5c2d1e9a7b'' [])
       \<lparr>docker_container = ''skypilot-cluster-deploy'',
        skypilot_image = ''berkeleyskypilot/skypilot'', home = ''/root'', cwd = ''/work''\<rparr>
   \<and> run_sky_cmd
       (\<lambda>cmd. if cmd = [''docker'', ''exec'', ''skypilot-cluster-deploy'', ''sky'', ''status'']
              then TimeoutExpired else Completed 0 ''4f5c2d1e9a7b'' [])
       \<lparr>docker_container = ''skypilot-cluster-deploy'',
        skypilot_image = ''berkeleyskypilot/skypilot'', home = ''/root'', cwd = ''/work''\<rparr>
       [''status''] 10
     = (False, [], ''Command 'sky status' timed out after 10 seconds'')"
proof -
  let ?m = "\<lparr>docker_container = ''skypilot-cluster-deploy'',
        skypilot_image = ''berkeleyskypilot/skypilot'', home = ''/root'', cwd = ''/work''\<rparr>"
  let ?r1 = "\<lambda>cmd::string list. FileNotFoundError ''No such file or directory: docker''"
  let ?r2 = "\<lambda>cmd. if cmd = [''docker'', ''exec'', ''skypilot-cluster-deploy'', ''sky'', ''status'']
              then TimeoutExpired else Completed 0 ''4f5c2d1e9a7b'' []"
  have h1: "\<not> ensure_docker_container ?r1 ?m"
    by (simp add: ensure_docker_container_def)
  have h2: "ensure_docker_container ?r2 ?m"
    by (simp add: ensure_docker_container_def docker_ps_cmd_def py_strip_def
        py_isspace_def py_whitespace_def)
  have s10: "str_int 10 = ''10''" by code_simp
  note t1 = run_sky_cmd_outcomes [of ?r1 ?m "[''status'']" 10]
  note t2 = run_sky_cmd_outcomes [of ?r2 ?m "[''status'']" 10]
  from t1 h1 have c1: "run_sky_cmd ?r1 ?m [''status''] 10 = (False, [], ''Failed to start container'')"
    by blast
  from t2 h2 have c2: "run_sky_cmd ?r2 ?m [''status''] 10
      = (False, [], ''Command 'sky status' timed out after 10 seconds'')"
    by (simp add: s10)
  show ?thesis by (intro conjI) (rule h1, rule c1, rule h2, rule c2)
qed

text \<open>
  C6 as stated fails: with the container running, a \<open>sky status\<close> process that exits
  with code 1 and writes nothing gives success False with an empty error detail.
\<close>

theorem run_sky_cmd_empty_detail_counterexample:
  "run_sky_cmd
     (\<lambda>cmd. if cmd = [''docker'', ''exec'', ''skypilot-cluster-deploy'', ''sky'', ''status'']
            then Completed 1 [] []
            else Completed 0 ''4f5c2d1e9a7b'' [])
     \<lparr>docker_container = ''skypilot-cluster-deploy'',
      skypilot_image = ''berkeleyskypilot/skypilot'', home = ''/root'', cwd = ''/work''\<rparr>
     [''status''] 10
   = (False, [], [])"
  by (simp add: run_sky_cmd_def ensure_docker_container_def docker_ps_cmd_def py_strip_def
      py_isspace_def py_whitespace_def)

section \<open>The completion detector\<close>

lemma monitor_loop_stop:
  "\<not> (elapsed < monitor_timeout \<and> \<not> completion_detected st) \<Longrightarrow>
   monitor_loop env job_name elapsed n st = (elapsed, n, st)"
  by (subst monitor_loop.simps) auto

lemma monitor_loop_step:
  "elapsed < monitor_timeout \<and> \<not> completion_detected st \<Longrightarrow>
   monitor_tick env job_name (st\<lparr>spent := 0\<rparr>) = (raised, st1) \<Longrightarrow>
   monitor_loop env job_name elapsed n st
     = monitor_loop env job_name (elapsed + spent st1 + tick_sleep + oversleep env n) (Suc n) st1"
  by (subst monitor_loop.simps) auto

lemma monitor_loop_exit:
  "monitor_loop env job_name elapsed n st = (e', n', st') \<Longrightarrow>
   completion_detected st' \<or> monitor_timeout \<le> e'"
proof (induction env job_name elapsed n st rule: monitor_loop.induct)
  case (1 env job_name elapsed n st)
  show ?case
  proof (cases "elapsed < monitor_timeout \<and> \<not> completion_detected st")
    case True
    obtain raised st1 where t: "monitor_tick env job_name (st\<lparr>spent := 0\<rparr>) = (raised, st1)"
      by (cases "monitor_tick env job_name (st\<lparr>spent := 0\<rparr>)") auto
    have "monitor_loop env job_name (elapsed + spent st1 + tick_sleep + oversleep env n) (Suc n) st1
        = (e', n', st')"
      using "1.prems" monitor_loop_step [OF True t] by simp
    then show ?thesis by (rule "1.IH" [OF True t [symmetric]])
  next
    case False
    then have "(e', n', st') = (elapsed, n, st)"
      using "1.prems" monitor_loop_stop [OF False] by simp
    then show ?thesis using False by auto
  qed
qed

lemma monitor_loop_keeps_undetected:
  "monitor_loop env job_name elapsed n st = (e', n', st') \<Longrightarrow>
   \<forall>s. \<not> completion_detected s \<longrightarrow> \<not> completion_detected (snd (monitor_tick env job_name s)) \<Longrightarrow>
   \<not> completion_detected st \<Longrightarrow> \<not> completion_detected st'"
proof (induction env job_name elapsed n st rule: monitor_loop.induct)
  case (1 env job_name elapsed n st)
  show ?case
  proof (cases "elapsed < monitor_timeout \<and> \<not> completion_detected st")
    case True
    obtain raised st1 where t: "monitor_tick env job_name (st\<lparr>spent := 0\<rparr>) = (raised, st1)"
      by (cases "monitor_tick env job_name (st\<lparr>spent := 0\<rparr>)") auto
    have "\<not> completion_detected (st\<lparr>spent := 0\<rparr>)" using "1.prems"(3) by simp
    then have u: "\<not> completion_detected st1" using "1.prems"(2) t by (metis snd_conv)
    have l: "monitor_loop env job_name (elapsed + spent st1 + tick_sleep + oversleep env n) (Suc n) st1
        = (e', n', st')"
      using "1.prems"(1) monitor_loop_step [OF True t] by simp
    show ?thesis by (rule "1.IH" [OF True t [symmetric] l "1.prems"(2) u])
  next
    case False
    then have "(e', n', st') = (elapsed, n, st)"
      using "1.prems"(1) monitor_loop_stop [OF False] by simp
    then show ?thesis using "1.prems"(3) by auto
  qed
qed

lemma accounted_refl: "accounted env st st"
  by (simp add: accounted_def)

lemma accounted_trans: "accounted env a b \<Longrightarrow> accounted env b c \<Longrightarrow> accounted env a c"
  by (auto simp: accounted_def)

lemma accounted_flag:
  "accounted env a (b\<lparr>completion_detected := v\<rparr>) = accounted env a b"
  "accounted env (a\<lparr>completion_detected := v\<rparr>) b = accounted env a b"
  "accounted env a (b\<lparr>deployment_cluster := d\<rparr>) = accounted env a b"
  "accounted env (a\<lparr>deployment_cluster := d\<rparr>) b = accounted env a b"
  by (simp_all add: accounted_def)

lemma call_sky_accounted:
  "call_sky env st args = (r, st1) \<Longrightarrow>
   accounted env st st1 \<and> calls st1 = Suc (calls st)
   \<and> completion_detected st1 = completion_detected st
   \<and> deployment_cluster st1 = deployment_cluster st
   \<and> sky_reply env (calls st) args = r"
  by (auto simp: call_sky_def accounted_def call_millis_def)

lemma scan_queue_line_step:
  assumes "scan_queue_lines env job_name cluster (qline # rest) st = (r, st1)"
  shows "\<exists>st2. accounted env st st2
      \<and> deployment_cluster st2 = deployment_cluster st
      \<and> (completion_detected st \<longrightarrow> completion_detected st2)
      \<and> (completion_detected st2 \<longrightarrow> completion_detected st
            \<or> terminal_row job_name qline \<or> logs_complete env)
      \<and> ((\<exists>msg. r = Some msg \<and> st1 = st2)
          \<or> scan_queue_lines env job_name cluster rest st2 = (r, st1))"
proof (cases "py_in job_name qline \<and> length (py_split qline) \<ge> 7
      \<and> py_split qline ! 6 = ''RUNNING''")
  case True
  obtain rep st2 where c: "call_sky env st [''logs'', cluster, ''--tail=3''] = (rep, st2)"
    by (cases "call_sky env st [''logs'', cluster, ''--tail=3'']") auto
  note a = call_sky_accounted [OF c]
  show ?thesis
  proof (cases rep)
    case (Raised msg)
    then have "r = Some msg \<and> st1 = st2" using assms True c by (simp add: Let_def)
    then show ?thesis using a by blast
  next
    case (Returned ok out err)
    show ?thesis
    proof (cases "list_ex (\<lambda>keyword. py_in keyword (py_lower out)) completion_keywords")
      case kw: True
      have l: "logs_complete env"
        unfolding logs_complete_def completion_text_def using a Returned kw by blast
      have "scan_queue_lines env job_name cluster rest (st2\<lparr>completion_detected := True\<rparr>)
            = (r, st1)"
        using assms True c Returned kw by (simp add: Let_def)
      moreover have "accounted env st (st2\<lparr>completion_detected := True\<rparr>)"
        using a by (simp add: accounted_flag)
      moreover have "deployment_cluster (st2\<lparr>completion_detected := True\<rparr>)
          = deployment_cluster st" using a by simp
      ultimately show ?thesis using l
        by (intro exI [of _ "st2\<lparr>completion_detected := True\<rparr>"]) simp
    next
      case kw: False
      have "scan_queue_lines env job_name cluster rest st2 = (r, st1)"
        using assms True c Returned kw by (simp add: Let_def)
      then show ?thesis using a by (intro exI [of _ st2]) simp
    qed
  qed
next
  case False
  show ?thesis
  proof (cases "terminal_row job_name qline")
    case t: True
    then have "scan_queue_lines env job_name cluster rest (st\<lparr>completion_detected := True\<rparr>)
        = (r, st1)"
      using assms False by (auto simp: Let_def terminal_row_def split: if_splits)
    then show ?thesis using t
      by (intro exI [of _ "st\<lparr>completion_detected := True\<rparr>"])
        (simp add: accounted_flag accounted_refl)
  next
    case t: False
    then have "scan_queue_lines env job_name cluster rest st = (r, st1)"
      using assms False by (auto simp: Let_def terminal_row_def split: if_splits)
    then show ?thesis by (intro exI [of _ st]) (simp add: accounted_refl)
  qed
qed

lemma scan_queue_lines_props:
  "scan_queue_lines env job_name cluster qlines st = (r, st1) \<Longrightarrow>
   accounted env st st1
   \<and> deployment_cluster st1 = deployment_cluster st
   \<and> (completion_detected st \<longrightarrow> completion_detected st1)
   \<and> (completion_detected st1 \<longrightarrow> completion_detected st
         \<or> list_ex (terminal_row job_name) qlines \<or> logs_complete env)"
proof (induction qlines arbitrary: st)
  case Nil
  then show ?case by (simp add: accounted_refl)
next
  case (Cons qline rest)
  from scan_queue_line_step [OF Cons.prems] obtain st2 where
    a: "accounted env st st2" and d: "deployment_cluster st2 = deployment_cluster st"
    and u: "completion_detected st \<longrightarrow> completion_detected st2"
    and f: "completion_detected st2 \<longrightarrow> completion_detected st
            \<or> terminal_row job_name qline \<or> logs_complete env"
    and n: "(\<exists>msg. r = Some msg \<and> st1 = st2)
          \<or> scan_queue_lines env job_name cluster rest st2 = (r, st1)"
    by blast
  from n show ?case
  proof
    assume "\<exists>msg. r = Some msg \<and> st1 = st2"
    then show ?thesis using a d u f by auto
  next
    assume "scan_queue_lines env job_name cluster rest st2 = (r, st1)"
    from Cons.IH [OF this] show ?thesis
      using a d u f accounted_trans [of env st st2 st1] by auto
  qed
qed

lemma no_terminal_status_iff:
  "no_terminal_status env job_name \<longleftrightarrow> \<not> queue_terminal env job_name \<and> \<not> logs_complete env"
  unfolding no_terminal_status_def queue_terminal_def logs_complete_def
  by (auto split: sky_result.splits) (metis sky_result.exhaust)+

lemma scan_status_lines_props:
  "scan_status_lines env job_name lines st = (r, st1) \<Longrightarrow>
   accounted env st st1
   \<and> (completion_detected st \<longrightarrow> completion_detected st1)
   \<and> (completion_detected st1 \<longrightarrow> completion_detected st
         \<or> queue_terminal env job_name \<or> logs_complete env)"
proof (induction lines arbitrary: st)
  case Nil
  then show ?case by (simp add: accounted_refl)
next
  case (Cons line rest)
  show ?case
  proof (cases "py_in ''sky-'' line \<and> (py_in ''INIT'' line \<or> py_in ''UP'' line)")
    case False
    then have "scan_status_lines env job_name rest st = (r, st1)"
      using Cons.prems by auto
    then show ?thesis by (rule Cons.IH)
  next
    case m: True
    show ?thesis
    proof (cases "py_split line")
      case Nil
      then have "scan_status_lines env job_name rest st = (r, st1)"
        using Cons.prems m by auto
      then show ?thesis by (rule Cons.IH)
    next
      case (Cons potential_cluster others)
      define cluster where
        "cluster = (case deployment_cluster st of None \<Rightarrow> potential_cluster | Some c \<Rightarrow> c)"
      define sta where "sta = st\<lparr>deployment_cluster := Some cluster\<rparr>"
      have a0: "accounted env st sta" "completion_detected sta = completion_detected st"
        by (simp_all add: sta_def accounted_flag accounted_refl)
      show ?thesis
      proof (cases "py_in ''UP'' line")
        case False
        then have "(r, st1) = (None, sta)"
          using Cons.prems m Cons by (simp add: Let_def sta_def cluster_def)
        then show ?thesis using a0 by simp
      next
        case up: True
        obtain rep st2 where c: "call_sky env sta [''queue'', cluster] = (rep, st2)"
          by (cases "call_sky env sta [''queue'', cluster]") auto
        note a = call_sky_accounted [OF c]
        have a2: "accounted env st st2" "completion_detected st2 = completion_detected st"
          using a a0 accounted_trans by auto
        have body: "(case rep of
              Raised text \<Rightarrow> (Some text, st2)
            | Returned queue_success queue_stdout queue_stderr \<Rightarrow>
                if queue_success \<and> queue_stdout \<noteq> []
                then scan_queue_lines env job_name cluster (py_split_lines queue_stdout) st2
                else (None, st2)) = (r, st1)"
          using Cons.prems m Cons up c unfolding sta_def cluster_def by (simp add: Let_def)
        show ?thesis
        proof (cases rep)
          case (Raised msg)
          then show ?thesis using body a2 by simp
        next
          case (Returned ok out err)
          show ?thesis
          proof (cases "ok \<and> out \<noteq> []")
            case False
            then show ?thesis using body Returned a2 by auto
          next
            case True
            then have "scan_queue_lines env job_name cluster (py_split_lines out) st2 = (r, st1)"
              using body Returned by simp
            note p = scan_queue_lines_props [OF this]
            have "list_ex (terminal_row job_name) (py_split_lines out) \<Longrightarrow>
                queue_terminal env job_name"
              unfolding queue_terminal_def using a Returned by blast
            then show ?thesis using p a2 accounted_trans [of env st st2 st1] by auto
          qed
        qed
      qed
    qed
  qed
qed

lemma monitor_tick_props:
  assumes "monitor_tick env job_name st = (r, st1)"
  shows "accounted env st st1"
    and "Suc (calls st) \<le> calls st1"
    and "completion_detected st \<longrightarrow> completion_detected st1"
    and "completion_detected st1 \<longrightarrow> completion_detected st
         \<or> queue_terminal env job_name \<or> logs_complete env"
proof -
  obtain rep st2 where c: "call_sky env st [''status''] = (rep, st2)"
    by (cases "call_sky env st [''status'']") auto
  note a = call_sky_accounted [OF c]
  have body: "(case rep of
        Raised text \<Rightarrow> (Some text, st2)
      | Returned status_success status_stdout status_stderr \<Rightarrow>
          if status_success \<and> status_stdout \<noteq> []
          then scan_status_lines env job_name (py_split_lines status_stdout) st2
          else (None, st2)) = (r, st1)"
    using assms c by (simp add: monitor_tick_def)
  have "accounted env st st1
    \<and> Suc (calls st) \<le> calls st1
    \<and> (completion_detected st \<longrightarrow> completion_detected st1)
    \<and> (completion_detected st1 \<longrightarrow> completion_detected st
         \<or> queue_terminal env job_name \<or> logs_complete env)"
  proof (cases rep)
    case (Raised msg)
    then show ?thesis using body a by auto
  next
    case (Returned ok out err)
    show ?thesis
    proof (cases "ok \<and> out \<noteq> []")
      case False
      then show ?thesis using body Returned a by auto
    next
      case True
      then have "scan_status_lines env job_name (py_split_lines out) st2 = (r, st1)"
        using body Returned by simp
      note p = scan_status_lines_props [OF this]
      have "calls st2 \<le> calls st1" using p by (simp add: accounted_def)
      then show ?thesis using p a accounted_trans [of env st st2 st1] by auto
    qed
  qed
  then show "accounted env st st1"
    and "Suc (calls st) \<le> calls st1"
    and "completion_detected st \<longrightarrow> completion_detected st1"
    and "completion_detected st1 \<longrightarrow> completion_detected st
         \<or> queue_terminal env job_name \<or> logs_complete env"
    by blast+
qed

lemma monitor_tick_failed_status:
  assumes "status_polls_fail env"
  shows "monitor_tick env job_name st =
     (case sky_reply env (calls st) [''status''] of Raised msg \<Rightarrow> Some msg
        | Returned ok out err \<Rightarrow> None,
      st\<lparr>calls := Suc (calls st), spent := spent st + sky_millis env (calls st)\<rparr>)"
proof -
  have "case sky_reply env (calls st) [''status''] of
             Raised text \<Rightarrow> True
           | Returned ok out err \<Rightarrow> \<not> ok \<or> out = []"
    using assms unfolding status_polls_fail_def by blast
  then show ?thesis
    by (auto simp: monitor_tick_def call_sky_def split: sky_result.splits)
qed

lemma sleep_millis_Suc:
  "sleep_millis env (Suc n) = sleep_millis env n + tick_sleep + oversleep env n"
  by (simp add: sleep_millis_def)

lemma monitor_loop_props:
  "monitor_loop env job_name elapsed n st = (e', n', st') \<Longrightarrow>
   n \<le> n'
   \<and> calls st + (n' - n) \<le> calls st'
   \<and> e' + call_millis env (calls st) + sleep_millis env n
       = elapsed + call_millis env (calls st') + sleep_millis env n'
   \<and> (n = n' \<longrightarrow> e' = elapsed \<and> st' = st)
   \<and> (n < n' \<longrightarrow> e' < monitor_timeout + spent st' + tick_sleep + oversleep env (n' - 1))
   \<and> (completion_detected st' \<longrightarrow> completion_detected st
         \<or> queue_terminal env job_name \<or> logs_complete env)"
proof (induction env job_name elapsed n st rule: monitor_loop.induct)
  case (1 env job_name elapsed n st)
  show ?case
  proof (cases "elapsed < monitor_timeout \<and> \<not> completion_detected st")
    case False
    then have "(e', n', st') = (elapsed, n, st)"
      using "1.prems" monitor_loop_stop [OF False] by simp
    then show ?thesis by auto
  next
    case True
    obtain raised st1 where t: "monitor_tick env job_name (st\<lparr>spent := 0\<rparr>) = (raised, st1)"
      by (cases "monitor_tick env job_name (st\<lparr>spent := 0\<rparr>)") auto
    let ?e2 = "elapsed + spent st1 + tick_sleep + oversleep env n"
    have l: "monitor_loop env job_name ?e2 (Suc n) st1 = (e', n', st')"
      using "1.prems" monitor_loop_step [OF True t] by simp
    note ih = "1.IH" [OF True t [symmetric] l]
    note p = monitor_tick_props [OF t]
    have acc: "spent st1 + call_millis env (calls st) = call_millis env (calls st1)"
      and c1: "Suc (calls st) \<le> calls st1"
      using p(1,2) by (simp_all add: accounted_def)
    have f1: "completion_detected st1 \<longrightarrow> queue_terminal env job_name \<or> logs_complete env"
      using p(4) True by simp
    have a: "n \<le> n'" using ih by simp
    have b: "calls st + (n' - n) \<le> calls st'" using ih c1 by auto
    have c: "e' + call_millis env (calls st) + sleep_millis env n
       = elapsed + call_millis env (calls st') + sleep_millis env n'"
      using ih acc by (simp add: sleep_millis_Suc)
    have d: "n \<noteq> n'" using ih by auto
    have e: "e' < monitor_timeout + spent st' + tick_sleep + oversleep env (n' - 1)"
    proof (cases "Suc n = n'")
      case s: True
      then have "e' = ?e2 \<and> st' = st1" using ih by simp
      then show ?thesis using True s by auto
    next
      case False
      then have "Suc n < n'" using ih by auto
      then show ?thesis using ih by simp
    qed
    have f: "completion_detected st' \<longrightarrow> completion_detected st
         \<or> queue_terminal env job_name \<or> logs_complete env"
      using ih f1 by blast
    show ?thesis using a b c d e f by simp
  qed
qed

lemma monitor_loop_failing_polls:
  "monitor_loop env job_name elapsed n st = (e', n', st') \<Longrightarrow>
   status_polls_fail env \<Longrightarrow>
   calls st' = calls st + (n' - n)
   \<and> deployment_cluster st' = deployment_cluster st
   \<and> completion_detected st' = completion_detected st
   \<and> (n < n' \<longrightarrow> spent st' = sky_millis env (calls st' - 1))"
proof (induction env job_name elapsed n st rule: monitor_loop.induct)
  case (1 env job_name elapsed n st)
  show ?case
  proof (cases "elapsed < monitor_timeout \<and> \<not> completion_detected st")
    case False
    then have "(e', n', st') = (elapsed, n, st)"
      using "1.prems"(1) monitor_loop_stop [OF False] by simp
    then show ?thesis by auto
  next
    case True
    obtain raised st1 where t: "monitor_tick env job_name (st\<lparr>spent := 0\<rparr>) = (raised, st1)"
      by (cases "monitor_tick env job_name (st\<lparr>spent := 0\<rparr>)") auto
    have st1: "st1 = st\<lparr>calls := Suc (calls st), spent := sky_millis env (calls st)\<rparr>"
      using t monitor_tick_failed_status [OF "1.prems"(2), of job_name "st\<lparr>spent := 0\<rparr>"]
      by simp
    let ?e2 = "elapsed + spent st1 + tick_sleep + oversleep env n"
    have l: "monitor_loop env job_name ?e2 (Suc n) st1 = (e', n', st')"
      using "1.prems"(1) monitor_loop_step [OF True t] by simp
    note ih = "1.IH" [OF True t [symmetric] l "1.prems"(2)]
    note p = monitor_loop_props [OF l]
    have n: "Suc n \<le> n'" using p by simp
    have s: "spent st' = sky_millis env (calls st' - 1)"
    proof (cases "Suc n = n'")
      case True
      then have "st' = st1" using p by simp
      then show ?thesis by (simp add: st1)
    next
      case False
      then show ?thesis using ih n by simp
    qed
    show ?thesis using ih n s by (simp add: st1)
  qed
qed

text \<open>
  A tick does detect a terminal status that is there: with a cluster shown as UP and a
  queue row of the job in state SUCCEEDED, the monitor ends after one tick with the
  completion panel.
\<close>

lemma monitor_detects_succeeded_job:
  "monitor_deployment_progress_streaming
     \<lparr>sky_reply = (\<lambda>k args.
        if args = [''status'']
        then Returned True ''sky-5f2a-user  2m ago  1x AWS  UP'' []
        else Returned True ''1  job  user  5m  4m  3m12s  SUCCEEDED  ~/logs'' []),
      sky_millis = (\<lambda>k. 1500), oversleep = (\<lambda>k. 0)\<rparr> ''job''
   = \<lparr>outcome = MonitoringComplete, final_elapsed = 6000, ticks = 1,
      final_state = \<lparr>deployment_cluster = Some ''sky-5f2a-user'', completion_detected = True,
                      calls = 2, spent = 3000\<rparr>\<rparr>"
proof -
  let ?env = "\<lparr>sky_reply = (\<lambda>k args.
        if args = [''status'']
        then Returned True ''sky-5f2a-user  2m ago  1x AWS  UP'' []
        else Returned True ''1  job  user  5m  4m  3m12s  SUCCEEDED  ~/logs'' []),
      sky_millis = (\<lambda>k. 1500), oversleep = (\<lambda>k. 0)\<rparr>"
  let ?st0 = "\<lparr>deployment_cluster = None, completion_detected = False, calls = 0, spent = 0\<rparr>"
  let ?st1 = "\<lparr>deployment_cluster = Some ''sky-5f2a-user'', completion_detected = True,
                      calls = 2, spent = 3000\<rparr>"
  have sp1: "py_split ''sky-5f2a-user  2m ago  1x AWS  UP''
      = [''sky-5f2a-user'', ''2m'', ''ago'', ''1x'', ''AWS'', ''UP'']"
    by (simp add: py_split_def py_isspace_def py_whitespace_def)
  have sp2: "py_split ''1  job  user  5m  4m  3m12s  SUCCEEDED  ~/logs''
      = [''1'', ''job'', ''user'', ''5m'', ''4m'', ''3m12s'', ''SUCCEEDED'', ''~/logs'']"
    by (simp add: py_split_def py_isspace_def py_whitespace_def)
  have up: "py_in ''sky-'' ''sky-5f2a-user  2m ago  1x AWS  UP''"
    "py_in ''UP'' ''sky-5f2a-user  2m ago  1x AWS  UP''"
    by simp_all
  have jb: "py_in ''job'' ''1  job  user  5m  4m  3m12s  SUCCEEDED  ~/logs''"
    by simp
  have q: "scan_queue_lines ?env ''job'' ''sky-5f2a-user''
      [''1  job  user  5m  4m  3m12s  SUCCEEDED  ~/logs''] st
      = (None, st\<lparr>completion_detected := True\<rparr>)" for st
    by (simp add: jb sp2 Let_def del: py_in.simps)
  have t: "monitor_tick ?env ''job'' (?st0\<lparr>spent := 0\<rparr>) = (None, ?st1)"
    by (simp add: monitor_tick_def call_sky_def py_split_lines_def up sp1 q Let_def
        del: py_in.simps scan_queue_lines.simps)
  have g: "0 < monitor_timeout \<and> \<not> completion_detected ?st0"
    by (simp add: monitor_timeout_def)
  have "monitor_loop ?env ''job'' 0 0 ?st0
      = monitor_loop ?env ''job'' (0 + spent ?st1 + tick_sleep + oversleep ?env 0) (Suc 0) ?st1"
    using g t by (rule monitor_loop_step)
  also have "\<dots> = (6000, 1, ?st1)"
    by (simp add: monitor_loop_stop tick_sleep_def)
  finally show ?thesis
    by (simp add: monitor_deployment_progress_streaming_def)
qed

text \<open>
  C10. The polling loop always ends (\<open>monitor_loop\<close> is a total function: every
  tick is followed by a sleep of at least three seconds). When no terminal job status is
  observed (no queue reply shows the job SUCCEEDED or FAILED and no log reply holds a
  completion keyword), the monitor ends with the timeout panel for 20 minutes, at an
  elapsed time that has reached the ceiling; so it does when every status poll raises or
  fails, and then each tick makes exactly one poll; so it does when no tick sets
  \<open>completion_detected\<close>. Whatever the polls do: the loop is left only with
  completion detected or with the ceiling reached; at least one tick is made and every
  tick polls at least once; the elapsed time at the end is exactly the time taken by the
  gateway calls made plus the time taken by the sleeps, one for each tick; and the last
  tick began before the ceiling. Once the elapsed time has reached the ceiling no tick
  is made; before the ceiling, with nothing detected, the next tick is made and the
  loop goes on from the state and the time that tick and its sleep leave, whether or not
  the tick raised.
\<close>

theorem monitor_reaches_timeout:
  "(let r = monitor_deployment_progress_streaming env job_name in
      (no_terminal_status env job_name \<longrightarrow>
         outcome r = MonitoringTimeout 20 \<and> monitor_timeout \<le> final_elapsed r)
    \<and> (status_polls_fail env \<longrightarrow>
         outcome r = MonitoringTimeout 20 \<and> monitor_timeout \<le> final_elapsed r
         \<and> calls (final_state r) = ticks r
         \<and> spent (final_state r) = sky_millis env (ticks r - 1)
         \<and> deployment_cluster (final_state r) = None)
    \<and> ((\<forall>s. \<not> completion_detected s \<longrightarrow>
            \<not> completion_detected (snd (monitor_tick env job_name s))) \<longrightarrow>
         outcome r = MonitoringTimeout 20 \<and> monitor_timeout \<le> final_elapsed r)
    \<and> (outcome r = MonitoringComplete \<or> monitor_timeout \<le> final_elapsed r)
    \<and> 0 < ticks r
    \<and> ticks r \<le> calls (final_state r)
    \<and> final_elapsed r = call_millis env (calls (final_state r)) + sleep_millis env (ticks r)
    \<and> final_elapsed r
         < monitor_timeout + spent (final_state r) + tick_sleep + oversleep env (ticks r - 1))
   \<and> (monitor_timeout \<le> elapsed \<longrightarrow>
        monitor_loop env job_name elapsed n st = (elapsed, n, st))
   \<and> (elapsed < monitor_timeout \<and> \<not> completion_detected st \<longrightarrow>
        monitor_loop env job_name elapsed n st
          = monitor_loop env job_name
              (elapsed + spent (snd (monitor_tick env job_name (st\<lparr>spent := 0\<rparr>)))
                 + tick_sleep + oversleep env n)
              (Suc n) (snd (monitor_tick env job_name (st\<lparr>spent := 0\<rparr>))))"
proof -
  let ?st0 = "\<lparr>deployment_cluster = None, completion_detected = False, calls = 0, spent = 0\<rparr>"
  obtain e' n' st' where l: "monitor_loop env job_name 0 0 ?st0 = (e', n', st')"
    by (cases "monitor_loop env job_name 0 0 ?st0") auto
  have r: "monitor_deployment_progress_streaming env job_name =
      \<lparr>outcome = (if completion_detected st' then MonitoringComplete
                      else MonitoringTimeout (monitor_timeout div 1000 div 60)),
       final_elapsed = e', ticks = n', final_state = st'\<rparr>"
    by (simp add: monitor_deployment_progress_streaming_def l)
  have twenty: "monitor_timeout div 1000 div 60 = 20" by (simp add: monitor_timeout_def)
  have ex: "completion_detected st' \<or> monitor_timeout \<le> e'"
    using l by (rule monitor_loop_exit)
  note p = monitor_loop_props [OF l]
  have pos: "0 < n'"
  proof (rule ccontr)
    assume "\<not> 0 < n'"
    then have "e' = 0 \<and> st' = ?st0" using p by simp
    then show False using ex by (simp add: monitor_timeout_def)
  qed
  have cnt: "n' \<le> calls st'" using p by simp
  have sum: "e' = call_millis env (calls st') + sleep_millis env n'"
    using p by (simp add: call_millis_def sleep_millis_def)
  have last: "e' < monitor_timeout + spent st' + tick_sleep + oversleep env (n' - 1)"
    using p pos by simp
  have nt: "\<not> completion_detected st'" if "no_terminal_status env job_name"
    using that p by (simp add: no_terminal_status_iff)
  have sf: "calls st' = n' \<and> spent st' = sky_millis env (n' - 1)
      \<and> deployment_cluster st' = None \<and> \<not> completion_detected st'"
    if "status_polls_fail env"
    using monitor_loop_failing_polls [OF l that] pos by simp
  have tk: "\<not> completion_detected st'"
    if "\<forall>s. \<not> completion_detected s \<longrightarrow>
            \<not> completion_detected (snd (monitor_tick env job_name s))"
    using monitor_loop_keeps_undetected [OF l that] by simp
  have d: "monitor_loop env job_name elapsed n st = (elapsed, n, st)"
    if "monitor_timeout \<le> elapsed"
    using that by (intro monitor_loop_stop) simp
  have s: "monitor_loop env job_name elapsed n st
          = monitor_loop env job_name
              (elapsed + spent (snd (monitor_tick env job_name (st\<lparr>spent := 0\<rparr>)))
                 + tick_sleep + oversleep env n)
              (Suc n) (snd (monitor_tick env job_name (st\<lparr>spent := 0\<rparr>)))"
    if "elapsed < monitor_timeout \<and> \<not> completion_detected st"
    using monitor_loop_step [OF that, of env job_name
        "fst (monitor_tick env job_name (st\<lparr>spent := 0\<rparr>))"
        "snd (monitor_tick env job_name (st\<lparr>spent := 0\<rparr>))" n]
    by simp
  let ?R = "monitor_deployment_progress_streaming env job_name"
  have o: "outcome ?R = (if completion_detected st' then MonitoringComplete
                        else MonitoringTimeout 20)"
    and fe: "final_elapsed ?R = e'" and ft: "ticks ?R = n'" and fs: "final_state ?R = st'"
    by (simp_all add: r twenty)
  have A: "no_terminal_status env job_name \<longrightarrow>
         outcome ?R = MonitoringTimeout 20 \<and> monitor_timeout \<le> final_elapsed ?R"
    using nt ex by (auto simp: o fe)
  have B: "status_polls_fail env \<longrightarrow>
         outcome ?R = MonitoringTimeout 20 \<and> monitor_timeout \<le> final_elapsed ?R
         \<and> calls (final_state ?R) = ticks ?R
         \<and> spent (final_state ?R) = sky_millis env (ticks ?R - 1)
         \<and> deployment_cluster (final_state ?R) = None"
    using sf ex by (auto simp: o fe ft fs)
  have C: "(\<forall>s. \<not> completion_detected s \<longrightarrow>
            \<not> completion_detected (snd (monitor_tick env job_name s))) \<longrightarrow>
         outcome ?R = MonitoringTimeout 20 \<and> monitor_timeout \<le> final_elapsed ?R"
    using tk ex by (auto simp: o fe)
  have D: "outcome ?R = MonitoringComplete \<or> monitor_timeout \<le> final_elapsed ?R"
    using ex by (auto simp: o fe)
  have E: "0 < ticks ?R" using pos by (simp add: ft)
  have F: "ticks ?R \<le> calls (final_state ?R)" using cnt by (simp add: ft fs)
  have G: "final_elapsed ?R
      = call_millis env (calls (final_state ?R)) + sleep_millis env (ticks ?R)"
    using sum by (simp add: fe ft fs)
  have H: "final_elapsed ?R
         < monitor_timeout + spent (final_state ?R) + tick_sleep + oversleep env (ticks ?R - 1)"
    using last by (simp add: fe ft fs)
  show ?thesis
    unfolding Let_def using A B C D E F G H d s by blast
qed

theorem monitor_reaches_timeout_witness:
  "outcome (monitor_deployment_progress_streaming
      \<lparr>sky_reply = (\<lambda>k args. if even k then Raised ''connection reset''
                              else Returned False [] ''Failed to start container''),
       sky_millis = (\<lambda>k. 10000), oversleep = (\<lambda>k. 0)\<rparr> ''job'') = MonitoringTimeout 20
   \<and> ticks (monitor_deployment_progress_streaming
      \<lparr>sky_reply = (\<lambda>k args. if even k then Raised ''connection reset''
                              else Returned False [] ''Failed to start container''),
       sky_millis = (\<lambda>k. 10000), oversleep = (\<lambda>k. 0)\<rparr> ''job'') = 93
   \<and> final_elapsed (monitor_deployment_progress_streaming
      \<lparr>sky_reply = (\<lambda>k args. if even k then Raised ''connection reset''
                              else Returned False [] ''Failed to start container''),
       sky_millis = (\<lambda>k. 10000), oversleep = (\<lambda>k. 0)\<rparr> ''job'') = 1209000
   \<and> calls (final_state (monitor_deployment_progress_streaming
      \<lparr>sky_reply = (\<lambda>k args. if even k then Raised ''connection reset''
                              else Returned False [] ''Failed to start container''),
       sky_millis = (\<lambda>k. 10000), oversleep = (\<lambda>k. 0)\<rparr> ''job'')) = 93
   \<and> monitor_loop
      \<lparr>sky_reply = (\<lambda>k args. if even k then Raised ''connection reset''
                              else Returned False [] ''Failed to start container''),
       sky_millis = (\<lambda>k. 10000), oversleep = (\<lambda>k. 0)\<rparr> ''job'' 1209000 93
      \<lparr>deployment_cluster = None, completion_detected = False, calls = 93, spent = 10000\<rparr>
     = (1209000, 93,
        \<lparr>deployment_cluster = None, completion_detected = False, calls = 93, spent = 10000\<rparr>)
   \<and> monitor_loop
      \<lparr>sky_reply = (\<lambda>k args. if even k then Raised ''connection reset''
                              else Returned False [] ''Failed to start container''),
       sky_millis = (\<lambda>k. 10000), oversleep = (\<lambda>k. 0)\<rparr> ''job'' 1196000 92
      \<lparr>deployment_cluster = None, completion_detected = False, calls = 92, spent = 10000\<rparr>
     = monitor_loop
      \<lparr>sky_reply = (\<lambda>k args. if even k then Raised ''connection reset''
                              else Returned False [] ''Failed to start container''),
       sky_millis = (\<lambda>k. 10000), oversleep = (\<lambda>k. 0)\<rparr> ''job'' 1209000 93
      \<lparr>deployment_cluster = None, completion_detected = False, calls = 93, spent = 10000\<rparr>"
proof -
  let ?env = "\<lparr>sky_reply = (\<lambda>k args. if even k then Raised ''connection reset''
                              else Returned False [] ''Failed to start container''),
       sky_millis = (\<lambda>k. 10000), oversleep = (\<lambda>k. 0)\<rparr>"
  let ?R = "monitor_deployment_progress_streaming ?env ''job''"
  let ?s92 = "\<lparr>deployment_cluster = None, completion_detected = False, calls = 92, spent = 10000\<rparr>"
  let ?s93 = "\<lparr>deployment_cluster = None, completion_detected = False, calls = 93, spent = 10000\<rparr>"
  have F: "status_polls_fail ?env"
    by (simp add: status_polls_fail_def)
  have N: "no_terminal_status ?env ''job''"
    by (simp add: no_terminal_status_def py_split_lines_def terminal_row_def py_split_def
        completion_text_def completion_keywords_def py_lower_def)
  have H: "\<forall>s. \<not> completion_detected s \<longrightarrow>
          \<not> completion_detected (snd (monitor_tick ?env ''job'' s))"
    by (simp add: monitor_tick_failed_status [OF F])
  have T: "monitor_timeout \<le> 1209000" by (simp add: monitor_timeout_def)
  have U: "1196000 < monitor_timeout \<and> \<not> completion_detected ?s92"
    by (simp add: monitor_timeout_def)
  have tick: "snd (monitor_tick ?env ''job''
        \<lparr>deployment_cluster = None, completion_detected = False, calls = 92, spent = 0\<rparr>)
      = ?s93"
    by (simp add: monitor_tick_failed_status [OF F])
  note thm1 = monitor_reaches_timeout [of ?env "''job''" 1209000 93 ?s93, unfolded Let_def]
  note thm2 = monitor_reaches_timeout [of ?env "''job''" 1196000 92 ?s92, unfolded Let_def]
  from thm1 F N have o: "outcome ?R = MonitoringTimeout 20" by blast
  from thm1 F have c: "calls (final_state ?R) = ticks ?R"
    and sp: "spent (final_state ?R) = 10000" by simp_all
  from thm1 have lo: "monitor_timeout \<le> final_elapsed ?R" using F by blast
  from thm1 have su: "final_elapsed ?R
      = call_millis ?env (calls (final_state ?R)) + sleep_millis ?env (ticks ?R)" by blast
  from thm1 have hi: "final_elapsed ?R
      < monitor_timeout + spent (final_state ?R) + tick_sleep + oversleep ?env (ticks ?R - 1)"
    by blast
  have su': "final_elapsed ?R = 13000 * ticks ?R"
    using su c by (simp add: call_millis_def sleep_millis_def tick_sleep_def)
  have t: "ticks ?R = 93"
    using lo hi su' sp by (simp add: monitor_timeout_def tick_sleep_def)
  have fe: "final_elapsed ?R = 1209000" using su' t by simp
  from thm1 T have st: "monitor_loop ?env ''job'' 1209000 93 ?s93 = (1209000, 93, ?s93)"
    by blast
  from thm2 U have "monitor_loop ?env ''job'' 1196000 92 ?s92
      = monitor_loop ?env ''job''
          (1196000 + spent (snd (monitor_tick ?env ''job'' (?s92\<lparr>spent := 0\<rparr>)))
             + tick_sleep + oversleep ?env 92)
          (Suc 92) (snd (monitor_tick ?env ''job'' (?s92\<lparr>spent := 0\<rparr>)))"
    by blast
  then have sp2: "monitor_loop ?env ''job'' 1196000 92 ?s92
      = monitor_loop ?env ''job'' 1209000 93 ?s93"
    by (simp add: tick tick_sleep_def)
  show ?thesis
    by (intro conjI) (rule o, rule t, rule fe, simp only: c t, rule st, rule sp2)
qed

end
